theory Spec2Isabelle
  imports Main "HOL-Library.Word" "HOL-Library.Multiset"
begin

section \<open>Shopping cart service: data model\<close>

text \<open>
  The structs of \<^verbatim>\<open>shopping-cart-service/main.go\<close>. Go's \<^verbatim>\<open>int\<close> is a 64-bit two's
  complement integer on the targets the service is built for, so a quantity is a
  64-bit word: \<open>+\<close> wraps around and \<open>sint\<close> reads the signed value.
  \<^verbatim>\<open>time.Time\<close> is a natural number (a clock reading).
\<close>

type_synonym go_int = "64 word"

record CartItem =
  ProductID :: string
  Quantity :: go_int

record ShoppingCart =
  CartID :: string
  CustomerID :: string
  Items :: "CartItem list"
  CreatedAt :: nat

record CreateCartRequest =
  req_CustomerID :: string

record AddItemRequest =
  req_ProductID :: string
  req_Quantity :: go_int

record CheckoutRequest =
  CreditCardNumber :: string

text \<open>
  \<^verbatim>\<open>CCARequest.Amount\<close> is a \<^verbatim>\<open>float64\<close>. The type of floats is a parameter \<open>'f\<close>
  of the model, together with the four float operations \<^verbatim>\<open>calculateTotal\<close> uses.
\<close>

record 'f CCARequest =
  cca_CreditCardNumber :: string
  Amount :: 'f

record CCAResponse =
  Status :: string
  TransactionID :: string
  Message :: string

record WarehouseOrder =
  OrderID :: string
  order_CartID :: string
  order_CustomerID :: string
  order_Items :: "CartItem list"
  Timestamp :: string

record 'f float64_ops =
  f_zero :: 'f
  f_ten :: 'f
  f_of_int :: "go_int \<Rightarrow> 'f"
  f_add :: "'f \<Rightarrow> 'f \<Rightarrow> 'f"
  f_mul :: "'f \<Rightarrow> 'f \<Rightarrow> 'f"

text \<open>
  Errors of \<^verbatim>\<open>authorizePayment\<close> and \<^verbatim>\<open>publishToWarehouse\<close>, one constructor for each
  \<^verbatim>\<open>fmt.Errorf\<close> of the source; the argument is what the format string is filled with.
\<close>

datatype go_error =
    MarshalRequestFailed string
  | CallCCAFailed string
  | DecodeCCAFailed string
  | InvalidCardFormat string
  | CCAStatus nat
  | MarshalOrderFailed string
  | PublishFailed string

text \<open>The JSON bodies the handlers answer with (\<^verbatim>\<open>gin.H\<close> values and carts).\<close>

record 'f CheckoutSuccess =
  message :: string
  order_id :: string
  authorization_status :: string
  transaction_id :: string
  total_amount :: 'f

datatype 'f resp_body =
    ErrorBody string
  | ErrorMessage string string
  | ErrorCause string go_error
  | CartBody ShoppingCart
  | CheckoutBody "'f CheckoutSuccess"

type_synonym 'f response = "nat \<times> 'f resp_body"

text \<open>The global \<^verbatim>\<open>carts sync.Map\<close>: \<^verbatim>\<open>Load\<close>, \<^verbatim>\<open>Store\<close> and \<^verbatim>\<open>Delete\<close> on a map.\<close>

type_synonym cart_store = "string \<rightharpoonup> ShoppingCart"

section \<open>Shopping cart service: the collaborators\<close>

text \<open>
  What the outside world does during one handler call: the JSON encoder, the HTTP
  exchange with the credit card authorizer (an error of \<^verbatim>\<open>http.Post\<close>, or a status code
  with the result of decoding the body as a \<^verbatim>\<open>CCAResponse\<close>), the publish on the
  RabbitMQ channel (\<open>None\<close> is a nil error), the order id \<^verbatim>\<open>uuid.New().String()\<close>
  and the formatted \<^verbatim>\<open>time.Now()\<close> of a checkout.
\<close>

datatype http_exchange =
    PostError string
  | PostResponse nat "string + CCAResponse"

record 'f collaborators =
  cca_marshal :: "'f CCARequest \<Rightarrow> string + string"
  cca_post :: "string \<Rightarrow> http_exchange"
  order_marshal :: "WarehouseOrder \<Rightarrow> string + string"
  queue_publish :: "string \<Rightarrow> string option"
  uuid_New :: string
  time_Now_RFC3339 :: string

text \<open>
  The calls a handler makes to the outside, in order: a POST to the authorizer's
  \<^verbatim>\<open>/authorize\<close> and a publish to the \<^verbatim>\<open>warehouse_orders\<close> queue, each with the bytes sent.
\<close>

datatype event = CCAPost string | QueuePublish string

section \<open>Shopping cart service: request binding\<close>

text \<open>
  \<^verbatim>\<open>c.ShouldBindJSON\<close> decodes the body into the struct (\<open>None\<close> when the body does not
  decode) and then checks the \<^verbatim>\<open>binding\<close> tags: \<^verbatim>\<open>required\<close> refuses the zero value,
  \<^verbatim>\<open>min=1,max=10000\<close> bound the signed value of the quantity.
\<close>

definition bind_CreateCartRequest :: "CreateCartRequest option \<Rightarrow> CreateCartRequest option" where
  "bind_CreateCartRequest body =
     (case body of None \<Rightarrow> None
      | Some req \<Rightarrow> if req_CustomerID req = [] then None else Some req)"

definition bind_AddItemRequest :: "AddItemRequest option \<Rightarrow> AddItemRequest option" where
  "bind_AddItemRequest body =
     (case body of None \<Rightarrow> None
      | Some req \<Rightarrow>
          if req_ProductID req = [] then None
          else if req_Quantity req = 0 then None
          else if sint (req_Quantity req) < 1 then None
          else if 10000 < sint (req_Quantity req) then None
          else Some req)"

definition bind_CheckoutRequest :: "CheckoutRequest option \<Rightarrow> CheckoutRequest option" where
  "bind_CheckoutRequest body =
     (case body of None \<Rightarrow> None
      | Some req \<Rightarrow> if CreditCardNumber req = [] then None else Some req)"

section \<open>Shopping cart service: handlers\<close>

text \<open>
  A handler is a function from the store and the request to the answer and the new
  store: handlers run one at a time (the source takes no lock around a handler, and what
  two overlapping calls on one cart do is not part of this model). Within one call the
  cart read from the store is a value: the slice \<^verbatim>\<open>cart.Items\<close> is written and then
  stored back under the same key.
\<close>

text \<open>
  \<^verbatim>\<open>createCart\<close> takes the results of its \<^verbatim>\<open>uuid.New().String()\<close> and \<^verbatim>\<open>time.Now()\<close>
  as arguments.
\<close>

definition createCart ::
  "string \<Rightarrow> nat \<Rightarrow> cart_store \<Rightarrow> CreateCartRequest option \<Rightarrow> 'f response \<times> cart_store" where
  "createCart uuid now carts body =
     (case bind_CreateCartRequest body of
        None \<Rightarrow> ((400, ErrorBody ''invalid request body''), carts)
      | Some req \<Rightarrow>
          let cart = \<lparr>CartID = uuid, CustomerID = req_CustomerID req,
                      Items = [], CreatedAt = now\<rparr>
          in ((201, CartBody cart), carts(CartID cart \<mapsto> cart)))"

definition getCart :: "cart_store \<Rightarrow> string \<Rightarrow> 'f response" where
  "getCart carts cartID =
     (case carts cartID of
        None \<Rightarrow> (404, ErrorBody ''cart not found'')
      | Some cart \<Rightarrow> (200, CartBody cart))"

text \<open>
  The loop of \<^verbatim>\<open>addItemToCart\<close> over \<^verbatim>\<open>cart.Items\<close>: the first line with the request's
  product id gets the request's quantity added and the loop breaks; the result is the
  items and the flag \<^verbatim>\<open>found\<close>.
\<close>

fun addItem_loop :: "CartItem list \<Rightarrow> AddItemRequest \<Rightarrow> CartItem list \<times> bool" where
  "addItem_loop [] req = ([], False)"
| "addItem_loop (item # items) req =
     (if ProductID item = req_ProductID req
      then (item\<lparr>Quantity := Quantity item + req_Quantity req\<rparr> # items, True)
      else (case addItem_loop items req of (items', found) \<Rightarrow> (item # items', found)))"

text \<open>The conversion \<^verbatim>\<open>CartItem(req)\<close>.\<close>

definition CartItem_of :: "AddItemRequest \<Rightarrow> CartItem" where
  "CartItem_of req = \<lparr>ProductID = req_ProductID req, Quantity = req_Quantity req\<rparr>"

definition addItem_items :: "CartItem list \<Rightarrow> AddItemRequest \<Rightarrow> CartItem list" where
  "addItem_items items req =
     (case addItem_loop items req of
        (items', found) \<Rightarrow> if \<not> found then items' @ [CartItem_of req] else items')"

definition addItemToCart ::
  "cart_store \<Rightarrow> string \<Rightarrow> AddItemRequest option \<Rightarrow> 'f response \<times> cart_store" where
  "addItemToCart carts cartID body =
     (case bind_AddItemRequest body of
        None \<Rightarrow> ((400, ErrorBody ''invalid request body''), carts)
      | Some req \<Rightarrow>
          (case carts cartID of
             None \<Rightarrow> ((404, ErrorBody ''cart not found''), carts)
           | Some cart \<Rightarrow>
               let cart' = cart\<lparr>Items := addItem_items (Items cart) req\<rparr>
               in ((200, CartBody cart'), carts(cartID \<mapsto> cart'))))"

text \<open>\<^verbatim>\<open>calculateTotal\<close>: ten per unit, summed in floats from 0.0.\<close>

definition calculateTotal :: "'f float64_ops \<Rightarrow> CartItem list \<Rightarrow> 'f" where
  "calculateTotal F items =
     foldl (\<lambda>total item. f_add F total (f_mul F (f_of_int F (Quantity item)) (f_ten F)))
       (f_zero F) items"

definition authorizePayment ::
  "'f collaborators \<Rightarrow> 'f CCARequest \<Rightarrow> (go_error + CCAResponse) \<times> event list" where
  "authorizePayment w req =
     (case cca_marshal w req of
        Inl e \<Rightarrow> (Inl (MarshalRequestFailed e), [])
      | Inr jsonData \<Rightarrow>
          (case cca_post w jsonData of
             PostError e \<Rightarrow> (Inl (CallCCAFailed e), [CCAPost jsonData])
           | PostResponse statusCode decoded \<Rightarrow>
               (case decoded of
                  Inl e \<Rightarrow> (Inl (DecodeCCAFailed e), [CCAPost jsonData])
                | Inr ccaResp \<Rightarrow>
                    if statusCode = 402 then (Inr ccaResp, [CCAPost jsonData])
                    else if statusCode = 400
                      then (Inl (InvalidCardFormat (Message ccaResp)), [CCAPost jsonData])
                    else if statusCode \<noteq> 200
                      then (Inl (CCAStatus statusCode), [CCAPost jsonData])
                    else (Inr ccaResp, [CCAPost jsonData]))))"

definition publishToWarehouse ::
  "'f collaborators \<Rightarrow> WarehouseOrder \<Rightarrow> go_error option \<times> event list" where
  "publishToWarehouse w order =
     (case order_marshal w order of
        Inl e \<Rightarrow> (Some (MarshalOrderFailed e), [])
      | Inr jsonData \<Rightarrow>
          (case queue_publish w jsonData of
             Some e \<Rightarrow> (Some (PublishFailed e), [QueuePublish jsonData])
           | None \<Rightarrow> (None, [QueuePublish jsonData])))"

definition checkout ::
  "'f float64_ops \<Rightarrow> 'f collaborators \<Rightarrow> cart_store \<Rightarrow> string \<Rightarrow> CheckoutRequest option
     \<Rightarrow> 'f response \<times> cart_store \<times> event list" where
  "checkout F w carts cartID body =
     (case bind_CheckoutRequest body of
        None \<Rightarrow> ((400, ErrorBody ''invalid request body''), carts, [])
      | Some req \<Rightarrow>
     (case carts cartID of
        None \<Rightarrow> ((404, ErrorBody ''cart not found''), carts, [])
      | Some cart \<Rightarrow>
          if length (Items cart) = 0
          then ((400, ErrorBody ''cannot checkout empty cart''), carts, [])
          else
            let amount = calculateTotal F (Items cart);
                ccaReq = \<lparr>cca_CreditCardNumber = CreditCardNumber req, Amount = amount\<rparr>
            in (case authorizePayment w ccaReq of
                  (Inl err, evs) \<Rightarrow>
                    ((500, ErrorCause ''payment authorization failed'' err), carts, evs)
                | (Inr ccaResp, evs) \<Rightarrow>
                    if Status ccaResp \<noteq> ''Authorized''
                    then ((402, ErrorMessage ''payment declined'' (Message ccaResp)), carts, evs)
                    else
                      let orderID = uuid_New w;
                          order = \<lparr>OrderID = orderID, order_CartID = cartID,
                                   order_CustomerID = CustomerID cart,
                                   order_Items = Items cart,
                                   Timestamp = time_Now_RFC3339 w\<rparr>
                      in (case publishToWarehouse w order of
                            (Some err, evs') \<Rightarrow>
                              ((500, ErrorCause ''failed to send order to warehouse'' err),
                               carts, evs @ evs')
                          | (None, evs') \<Rightarrow>
                              ((200, CheckoutBody
                                  \<lparr>message = ''checkout successful'',
                                   order_id = orderID,
                                   authorization_status = ''Authorized'',
                                   transaction_id = TransactionID ccaResp,
                                   total_amount = amount\<rparr>),
                               carts(cartID := None), evs @ evs')))))"

section \<open>Sequences of cart operations\<close>

text \<open>
  A call of \<^verbatim>\<open>createCart\<close> (with the fresh id, the clock and the decoded body) or of
  \<^verbatim>\<open>addItemToCart\<close> (with the cart id of the path and the decoded body); a sequence of
  calls runs from left to right on the store.
\<close>

datatype cart_op =
    CreateCart string nat "CreateCartRequest option"
  | AddItem string "AddItemRequest option"

fun apply_op :: "cart_store \<Rightarrow> cart_op \<Rightarrow> cart_store" where
  "apply_op carts (CreateCart uuid now body) =
     snd (createCart uuid now carts body :: unit response \<times> cart_store)"
| "apply_op carts (AddItem cartID body) =
     snd (addItemToCart carts cartID body :: unit response \<times> cart_store)"

definition run_ops :: "cart_store \<Rightarrow> cart_op list \<Rightarrow> cart_store" where
  "run_ops carts ops = foldl apply_op carts ops"

text \<open>
  The accepted \<^verbatim>\<open>addItemToCart\<close> calls of a sequence, those whose body binds: no other
  call changes a quantity.
\<close>

fun accepted_AddItem :: "cart_op \<Rightarrow> bool" where
  "accepted_AddItem (CreateCart uuid now body) = False"
| "accepted_AddItem (AddItem cartID body) = (bind_AddItemRequest body \<noteq> None)"

text \<open>The invariant of the data model: product ids unique in a cart, quantities at least 1.\<close>

definition cart_invariant :: "ShoppingCart \<Rightarrow> bool" where
  "cart_invariant cart \<longleftrightarrow>
     distinct (map ProductID (Items cart)) \<and>
     (\<forall>item \<in> set (Items cart). 1 \<le> sint (Quantity item))"

text \<open>The quantity of the line of a product in a list of items, if there is one.\<close>

definition line_quantity :: "CartItem list \<Rightarrow> string \<Rightarrow> go_int option" where
  "line_quantity items p = map_option Quantity (find (\<lambda>item. ProductID item = p) items)"

section \<open>Warehouse service: data model\<close>

text \<open>
  The warehouse service declares the same \<^verbatim>\<open>WarehouseOrder\<close> and \<^verbatim>\<open>CartItem\<close> structs.
  Its globals are \<^verbatim>\<open>totalOrders int64\<close> and \<^verbatim>\<open>productQty map[string]int64\<close>; a delivery
  is an \<^verbatim>\<open>amqp.Delivery\<close>, of which the code reads the body and on which it calls
  \<^verbatim>\<open>Ack(multiple)\<close> or \<^verbatim>\<open>Nack(multiple, requeue)\<close>.
\<close>

type_synonym int64 = "64 word"

record Delivery =
  DeliveryTag :: nat
  Body :: string

record warehouse_stats =
  totalOrders :: int64
  productQty :: "string \<rightharpoonup> int64"

datatype broker_call = Ack Delivery bool | Nack Delivery bool bool

text \<open>
  \<^verbatim>\<open>json.Unmarshal(msg.Body, &order)\<close> belongs to Go's library: it is a parameter
  \<open>unmarshal\<close> of the model, \<open>None\<close> when it returns an error and the decoded order
  otherwise.
\<close>

type_synonym unmarshal = "string \<Rightarrow> WarehouseOrder option"

section \<open>Warehouse service: processing one message\<close>

text \<open>Reading a Go map gives the zero value for a missing key.\<close>

definition qty_of :: "warehouse_stats \<Rightarrow> string \<Rightarrow> int64" where
  "qty_of st p = (case productQty st p of None \<Rightarrow> 0 | Some q \<Rightarrow> q)"

text \<open>\<^verbatim>\<open>atomic.AddInt64(&totalOrders, 1)\<close>.\<close>

definition count_order :: "warehouse_stats \<Rightarrow> warehouse_stats" where
  "count_order st = st\<lparr>totalOrders := totalOrders st + 1\<rparr>"

text \<open>
  The body of the loop of \<^verbatim>\<open>processOrder\<close>, under the mutex:
  \<^verbatim>\<open>productQty[item.ProductID] += int64(item.Quantity)\<close>.
\<close>

definition add_product_qty :: "warehouse_stats \<Rightarrow> CartItem \<Rightarrow> warehouse_stats" where
  "add_product_qty st item =
     st\<lparr>productQty := (productQty st)(ProductID item \<mapsto> qty_of st (ProductID item) + Quantity item)\<rparr>"

definition processOrder :: "warehouse_stats \<Rightarrow> WarehouseOrder \<Rightarrow> warehouse_stats" where
  "processOrder st order = foldl add_product_qty (count_order st) (order_Items order)"

text \<open>
  One iteration of the loop of \<^verbatim>\<open>processMessages\<close>: the new counters and the call made
  on the delivery. An error of \<^verbatim>\<open>msg.Ack\<close> is only logged.
\<close>

definition processMessage ::
  "unmarshal \<Rightarrow> warehouse_stats \<Rightarrow> Delivery \<Rightarrow> warehouse_stats \<times> broker_call" where
  "processMessage um st msg =
     (case um (Body msg) of
        None \<Rightarrow> (st, Nack msg False False)
      | Some order \<Rightarrow> (processOrder st order, Ack msg False))"

text \<open>The loop of \<^verbatim>\<open>processMessages\<close> run by one worker on the deliveries it receives.\<close>

fun processMessages ::
  "unmarshal \<Rightarrow> warehouse_stats \<Rightarrow> Delivery list \<Rightarrow> warehouse_stats \<times> broker_call list" where
  "processMessages um st [] = (st, [])"
| "processMessages um st (msg # messageChan) =
     (case processMessage um st msg of
        (st', call) \<Rightarrow>
          (case processMessages um st' messageChan of
             (st'', calls) \<Rightarrow> (st'', call # calls)))"

section \<open>Warehouse service: the worker pool\<close>

text \<open>
  \<^verbatim>\<open>main\<close> starts one distributor goroutine, which forwards the deliveries of
  \<^verbatim>\<open>msgs\<close> into the buffered channel \<^verbatim>\<open>messageChan\<close> (capacity \<^verbatim>\<open>numWorkers*2\<close>), and
  \<^verbatim>\<open>numWorkers\<close> goroutines running \<^verbatim>\<open>processMessages\<close> on that channel. The goroutines
  share \<^verbatim>\<open>totalOrders\<close> (touched by an atomic add only) and \<^verbatim>\<open>productQty\<close> (touched
  under \<^verbatim>\<open>productMutex\<close> only), so a run is an interleaving of these atomic operations.
  A worker is at one of four places of \<^verbatim>\<open>processMessages\<close>: receiving from the
  channel, holding a delivery before \<^verbatim>\<open>json.Unmarshal\<close>, before the atomic add of
  \<^verbatim>\<open>processOrder\<close>, or in the loop of \<^verbatim>\<open>processOrder\<close> with the items still to add
  (with none left, its next operation is \<^verbatim>\<open>msg.Ack\<close>). The model covers the service
  while it consumes, up to the termination signal; closing the channels at shutdown is
  not part of it.
\<close>

definition numWorkers :: nat where
  "numWorkers = 10"

datatype worker =
    Receiving
  | Unmarshalling Delivery
  | Counting Delivery WarehouseOrder
  | Updating Delivery "CartItem list"

record config =
  msgs :: "Delivery list"
  messageChan :: "Delivery list"
  workers :: "worker list"
  stats :: warehouse_stats
  broker :: "broker_call list"

datatype actor = Distributor | Worker nat

text \<open>
  One atomic operation of a goroutine. A goroutine that cannot move (nothing to forward,
  a full or an empty channel) leaves the configuration as it is.
\<close>

definition worker_step :: "unmarshal \<Rightarrow> config \<Rightarrow> nat \<Rightarrow> config" where
  "worker_step um c i =
     (case workers c ! i of
        Receiving \<Rightarrow>
          (case messageChan c of
             [] \<Rightarrow> c
           | msg # rest \<Rightarrow>
               c\<lparr>messageChan := rest, workers := (workers c)[i := Unmarshalling msg]\<rparr>)
      | Unmarshalling msg \<Rightarrow>
          (case um (Body msg) of
             None \<Rightarrow>
               c\<lparr>broker := broker c @ [Nack msg False False],
                 workers := (workers c)[i := Receiving]\<rparr>
           | Some order \<Rightarrow> c\<lparr>workers := (workers c)[i := Counting msg order]\<rparr>)
      | Counting msg order \<Rightarrow>
          c\<lparr>stats := count_order (stats c),
            workers := (workers c)[i := Updating msg (order_Items order)]\<rparr>
      | Updating msg [] \<Rightarrow>
          c\<lparr>broker := broker c @ [Ack msg False], workers := (workers c)[i := Receiving]\<rparr>
      | Updating msg (item # items) \<Rightarrow>
          c\<lparr>stats := add_product_qty (stats c) item,
            workers := (workers c)[i := Updating msg items]\<rparr>)"

definition step :: "unmarshal \<Rightarrow> config \<Rightarrow> actor \<Rightarrow> config" where
  "step um c a =
     (case a of
        Distributor \<Rightarrow>
          (case msgs c of
             [] \<Rightarrow> c
           | msg # rest \<Rightarrow>
               if length (messageChan c) < numWorkers * 2
               then c\<lparr>msgs := rest, messageChan := messageChan c @ [msg]\<rparr>
               else c)
      | Worker i \<Rightarrow> if i < length (workers c) then worker_step um c i else c)"

text \<open>A run under a schedule: the goroutines move in the order the schedule names them.\<close>

definition run :: "unmarshal \<Rightarrow> config \<Rightarrow> actor list \<Rightarrow> config" where
  "run um c schedule = foldl (step um) c schedule"

text \<open>The service at start, with the deliveries the broker is going to send.\<close>

definition initial :: "Delivery list \<Rightarrow> config" where
  "initial deliveries =
     \<lparr>msgs = deliveries, messageChan = [], workers = replicate numWorkers Receiving,
      stats = \<lparr>totalOrders = 0, productQty = Map.empty\<rparr>, broker = []\<rparr>"

fun is_Ack :: "broker_call \<Rightarrow> bool" where
  "is_Ack (Ack msg multiple) = True"
| "is_Ack (Nack msg multiple requeue) = False"

text \<open>The items a delivery carries (none when its body does not decode).\<close>

definition message_items :: "unmarshal \<Rightarrow> Delivery \<Rightarrow> CartItem list" where
  "message_items um msg = (case um (Body msg) of None \<Rightarrow> [] | Some order \<Rightarrow> order_Items order)"

text \<open>The quantities of one product in a list of items, summed as \<^verbatim>\<open>int64\<close> and as integers.\<close>

definition product_sum :: "string \<Rightarrow> CartItem list \<Rightarrow> int64" where
  "product_sum p items = (\<Sum>item\<leftarrow>filter (\<lambda>item. ProductID item = p) items. Quantity item)"

definition product_sum_int :: "string \<Rightarrow> CartItem list \<Rightarrow> int" where
  "product_sum_int p items =
     (\<Sum>item\<leftarrow>filter (\<lambda>item. ProductID item = p) items. sint (Quantity item))"

section \<open>Bookkeeping for the worker pool\<close>

text \<open>
  What a worker at some place of \<^verbatim>\<open>processMessages\<close> has on its hands: the delivery it
  holds, whether it has counted the order, and the part of a product's quantity it has
  added so far. A worker before the atomic add holds the order its delivery decodes to.
\<close>

fun held :: "worker \<Rightarrow> Delivery multiset" where
  "held Receiving = {#}"
| "held (Unmarshalling msg) = {#msg#}"
| "held (Counting msg order) = {#msg#}"
| "held (Updating msg items) = {#msg#}"

fun counted :: "worker \<Rightarrow> nat" where
  "counted (Updating msg items) = 1"
| "counted w = 0"

fun added :: "unmarshal \<Rightarrow> string \<Rightarrow> worker \<Rightarrow> int64" where
  "added um p (Updating msg items) = product_sum p (message_items um msg) - product_sum p items"
| "added um p w = 0"

fun worker_ok :: "unmarshal \<Rightarrow> worker \<Rightarrow> bool" where
  "worker_ok um (Counting msg order) = (um (Body msg) = Some order)"
| "worker_ok um w = True"

fun call_msg :: "broker_call \<Rightarrow> Delivery" where
  "call_msg (Ack msg multiple) = msg"
| "call_msg (Nack msg multiple requeue) = msg"

text \<open>
  The invariant of a run on the deliveries \<open>deliveries\<close>: every delivery is waiting,
  in the channel, held by a worker or settled with the broker; the counters are those of
  the acknowledged deliveries plus what the workers in \<^verbatim>\<open>processOrder\<close> have added.
\<close>

definition pool_invariant :: "unmarshal \<Rightarrow> Delivery list \<Rightarrow> config \<Rightarrow> bool" where
  "pool_invariant um deliveries c \<longleftrightarrow>
     mset deliveries =
       mset (msgs c) + mset (messageChan c) + (\<Sum>w\<leftarrow>workers c. held w)
         + mset (map call_msg (broker c))
     \<and> list_all (worker_ok um) (workers c)
     \<and> totalOrders (stats c) =
         of_nat (length (filter is_Ack (broker c)) + (\<Sum>w\<leftarrow>workers c. counted w))
     \<and> (\<forall>p. qty_of (stats c) p =
            (\<Sum>x\<leftarrow>filter is_Ack (broker c). product_sum p (message_items um (call_msg x)))
            + (\<Sum>w\<leftarrow>workers c. added um p w))"

section \<open>Example inputs\<close>

text \<open>
  Floats that stand for small whole amounts, a store with one cart, and collaborators
  that answer every checkout the same way: the authorizer with a status code and a
  decoded body, the queue with an error or none.
\<close>

definition int_floats :: "int float64_ops" where
  "int_floats =
     \<lparr>f_zero = 0, f_ten = 10, f_of_int = sint,
      f_add = (\<lambda>x y. x + y), f_mul = (\<lambda>x y. x * y)\<rparr>"

definition example_cart :: ShoppingCart where
  "example_cart =
     \<lparr>CartID = ''c1'', CustomerID = ''u1'',
      Items = [\<lparr>ProductID = ''P1'', Quantity = 5\<rparr>], CreatedAt = 0\<rparr>"

definition example_world :: "nat \<Rightarrow> CCAResponse \<Rightarrow> string option \<Rightarrow> int collaborators" where
  "example_world statusCode ccaResp publishErr =
     \<lparr>cca_marshal = (\<lambda>req. Inr ''request''),
      cca_post = (\<lambda>jsonData. PostResponse statusCode (Inr ccaResp)),
      order_marshal = (\<lambda>order. Inr ''order''),
      queue_publish = (\<lambda>jsonData. publishErr),
      uuid_New = ''o1'',
      time_Now_RFC3339 = ''2025-11-13T10:30:00Z''\<rparr>"

definition example_card :: "CheckoutRequest option" where
  "example_card = Some \<lparr>CreditCardNumber = ''1234-5678-9012-3456''\<rparr>"

text \<open>
  A decoder that knows three bodies: two orders, and a body that decodes to the order
  with every field at its zero value.
\<close>

definition example_unmarshal :: unmarshal where
  "example_unmarshal body =
     (if body = ''a'' then
        Some \<lparr>OrderID = ''o1'', order_CartID = ''c1'', order_CustomerID = ''u1'',
              order_Items = [\<lparr>ProductID = ''P1'', Quantity = 2\<rparr>,
                             \<lparr>ProductID = ''P2'', Quantity = 1\<rparr>],
              Timestamp = ''t1''\<rparr>
      else if body = ''b'' then
        Some \<lparr>OrderID = ''o2'', order_CartID = ''c2'', order_CustomerID = ''u2'',
              order_Items = [\<lparr>ProductID = ''P1'', Quantity = 3\<rparr>],
              Timestamp = ''t2''\<rparr>
      else if body = ''null'' then
        Some \<lparr>OrderID = [], order_CartID = [], order_CustomerID = [],
              order_Items = [], Timestamp = []\<rparr>
      else None)"

definition example_deliveries :: "Delivery list" where
  "example_deliveries = [\<lparr>DeliveryTag = 1, Body = ''a''\<rparr>, \<lparr>DeliveryTag = 2, Body = ''b''\<rparr>]"

definition example_schedule :: "actor list" where
  "example_schedule =
     [Distributor, Distributor, Worker 0, Worker 1, Worker 1, Worker 0, Worker 0,
      Worker 1, Worker 0, Worker 1, Worker 0, Worker 1, Worker 0]"

definition zero_stats :: warehouse_stats where
  "zero_stats = \<lparr>totalOrders = 0, productQty = Map.empty\<rparr>"

text \<open>
  A decoder for which every body is one order with two lines of \<open>2^62\<close> units of one
  product, one delivery, and the schedule in which the distributor forwards it and the
  first worker receives it, decodes it, counts it, adds its two lines and acknowledges it.
\<close>

definition large_unmarshal :: unmarshal where
  "large_unmarshal body =
     Some \<lparr>OrderID = ''o1'', order_CartID = ''c1'', order_CustomerID = ''u1'',
           order_Items = [\<lparr>ProductID = ''P1'', Quantity = 4611686018427387904\<rparr>,
                          \<lparr>ProductID = ''P1'', Quantity = 4611686018427387904\<rparr>],
           Timestamp = ''t1''\<rparr>"

definition large_deliveries :: "Delivery list" where
  "large_deliveries = [\<lparr>DeliveryTag = 1, Body = ''a''\<rparr>]"

definition large_schedule :: "actor list" where
  "large_schedule =
     [Distributor, Worker 0, Worker 0, Worker 0, Worker 0, Worker 0, Worker 0]"

section \<open>Checkout\<close>

text \<open>
  Claim C1. A checkout call on an existing, non-empty cart for which the payment
  gateway authorizes and the publish succeeds answers 200 with the order id drawn for
  this call, the transaction id of the gateway and the computed total, and deletes the cart: a
  \<^verbatim>\<open>getCart\<close> on the new store answers 404. The gateway is asked only when the request
  body binds, so a call in which it authorizes has a body that binds; the gateway
  authorizes when \<^verbatim>\<open>authorizePayment\<close> returns a response with status "Authorized", the
  publish succeeds when \<^verbatim>\<open>publishToWarehouse\<close> returns no error.
\<close>

theorem checkout_success_deletes_cart:
  assumes "bind_CheckoutRequest body = Some req"
    and "carts cartID = Some cart"
    and "Items cart \<noteq> []"
    and "fst (authorizePayment w \<lparr>cca_CreditCardNumber = CreditCardNumber req,
                Amount = calculateTotal F (Items cart)\<rparr>) = Inr ccaResp"
    and "Status ccaResp = ''Authorized''"
    and "fst (publishToWarehouse w \<lparr>OrderID = uuid_New w, order_CartID = cartID,
                order_CustomerID = CustomerID cart, order_Items = Items cart,
                Timestamp = time_Now_RFC3339 w\<rparr>) = None"
  shows "\<exists>carts' evs.
           checkout F w carts cartID body =
             ((200, CheckoutBody \<lparr>message = ''checkout successful'', order_id = uuid_New w,
                      authorization_status = ''Authorized'',
                      transaction_id = TransactionID ccaResp,
                      total_amount = calculateTotal F (Items cart)\<rparr>), carts', evs)
           \<and> carts' = carts(cartID := None)
           \<and> (getCart carts' cartID :: 'f response) = (404, ErrorBody ''cart not found'')"
  using assms
  by (auto simp: checkout_def getCart_def Let_def split: prod.splits sum.splits option.splits)

theorem checkout_success_deletes_cart_witness:
  "fst (checkout int_floats
          (example_world 200 \<lparr>Status = ''Authorized'', TransactionID = ''tx1'', Message = ''ok''\<rparr> None)
          [''c1'' \<mapsto> example_cart] ''c1'' example_card) =
     (200, CheckoutBody \<lparr>message = ''checkout successful'', order_id = ''o1'',
             authorization_status = ''Authorized'', transaction_id = ''tx1'',
             total_amount = 50\<rparr>)
   \<and> (getCart (fst (snd (checkout int_floats
          (example_world 200 \<lparr>Status = ''Authorized'', TransactionID = ''tx1'', Message = ''ok''\<rparr> None)
          [''c1'' \<mapsto> example_cart] ''c1'' example_card))) ''c1'' :: int response) =
     (404, ErrorBody ''cart not found'')"
proof -
  let ?w = "example_world 200 \<lparr>Status = ''Authorized'', TransactionID = ''tx1'', Message = ''ok''\<rparr> None"
  let ?resp = "\<lparr>Status = ''Authorized'', TransactionID = ''tx1'', Message = ''ok''\<rparr>"
  have h1: "bind_CheckoutRequest example_card = Some \<lparr>CreditCardNumber = ''1234-5678-9012-3456''\<rparr>"
    by (simp add: bind_CheckoutRequest_def example_card_def)
  have h2: "[''c1'' \<mapsto> example_cart] ''c1'' = Some example_cart"
    by simp
  have h3: "Items example_cart \<noteq> []"
    by (simp add: example_cart_def)
  have h4: "fst (authorizePayment ?w
               \<lparr>cca_CreditCardNumber = CreditCardNumber \<lparr>CreditCardNumber = ''1234-5678-9012-3456''\<rparr>,
                Amount = calculateTotal int_floats (Items example_cart)\<rparr>) = Inr ?resp"
    by (simp add: authorizePayment_def example_world_def)
  have h5: "Status ?resp = ''Authorized''"
    by simp
  have h6: "fst (publishToWarehouse ?w \<lparr>OrderID = uuid_New ?w, order_CartID = ''c1'',
                order_CustomerID = CustomerID example_cart, order_Items = Items example_cart,
                Timestamp = time_Now_RFC3339 ?w\<rparr>) = None"
    by (simp add: publishToWarehouse_def example_world_def)
  have total: "calculateTotal int_floats (Items example_cart) = 50"
    by (simp add: calculateTotal_def int_floats_def example_cart_def)
  have id: "uuid_New ?w = ''o1''"
    by (simp add: example_world_def)
  from checkout_success_deletes_cart
    [where carts = "[''c1'' \<mapsto> example_cart]" and cartID = "''c1''", OF h1 h2 h3 h4 h5 h6]
  show ?thesis
    by (auto simp: total id)
qed

text \<open>
  Claim C2. A checkout call that ends in Declined (402) or in an upstream failure (500:
  the authorization failed, or the publish failed after the authorization) leaves the
  store as it was, and the cart is still there: \<^verbatim>\<open>getCart\<close> on the new store returns
  the cart the checkout began with.
\<close>

theorem checkout_failure_keeps_cart:
  assumes "checkout F w carts cartID body = (resp, carts', evs)"
    and "fst resp = 402 \<or> fst resp = 500"
  shows "carts' = carts \<and>
         (\<exists>cart. carts cartID = Some cart \<and>
             (getCart carts' cartID :: 'f response) = (200, CartBody cart))"
  using assms
  by (auto simp: checkout_def getCart_def Let_def
      split: prod.splits sum.splits option.splits if_splits)

theorem checkout_failure_keeps_cart_witness:
  "checkout int_floats
     (example_world 402 \<lparr>Status = ''Declined'', TransactionID = [], Message = ''Card declined by issuer''\<rparr> None)
     [''c1'' \<mapsto> example_cart] ''c1'' example_card =
     ((402, ErrorMessage ''payment declined'' ''Card declined by issuer''),
      [''c1'' \<mapsto> example_cart], [CCAPost ''request''])
   \<and> checkout int_floats
     (example_world 200 \<lparr>Status = ''Authorized'', TransactionID = ''tx1'', Message = ''ok''\<rparr>
        (Some ''channel closed''))
     [''c1'' \<mapsto> example_cart] ''c1'' example_card =
     ((500, ErrorCause ''failed to send order to warehouse'' (PublishFailed ''channel closed'')),
      [''c1'' \<mapsto> example_cart], [CCAPost ''request'', QueuePublish ''order''])
   \<and> (getCart [''c1'' \<mapsto> example_cart] ''c1'' :: int response) = (200, CartBody example_cart)"
proof -
  let ?declined = "example_world 402
     \<lparr>Status = ''Declined'', TransactionID = [], Message = ''Card declined by issuer''\<rparr> None"
  let ?broken = "example_world 200
     \<lparr>Status = ''Authorized'', TransactionID = ''tx1'', Message = ''ok''\<rparr> (Some ''channel closed'')"
  have d: "checkout int_floats ?declined [''c1'' \<mapsto> example_cart] ''c1'' example_card =
     ((402, ErrorMessage ''payment declined'' ''Card declined by issuer''),
      [''c1'' \<mapsto> example_cart], [CCAPost ''request''])"
    by (simp add: checkout_def authorizePayment_def bind_CheckoutRequest_def example_world_def
        example_card_def example_cart_def)
  have b: "checkout int_floats ?broken [''c1'' \<mapsto> example_cart] ''c1'' example_card =
     ((500, ErrorCause ''failed to send order to warehouse'' (PublishFailed ''channel closed'')),
      [''c1'' \<mapsto> example_cart], [CCAPost ''request'', QueuePublish ''order''])"
    by (simp add: checkout_def authorizePayment_def publishToWarehouse_def
        bind_CheckoutRequest_def example_world_def example_card_def example_cart_def)
  from checkout_failure_keeps_cart [OF d] checkout_failure_keeps_cart [OF b]
  show ?thesis
    using d b by auto
qed

text \<open>
  Claim C4. A checkout call on an existing cart with no items answers 400, calls
  neither the payment gateway nor the queue, and leaves the store as it was; when the
  request body binds, the answer is the empty-cart error (a body that does not bind is
  answered 400 "invalid request body" before the cart is loaded).
\<close>

theorem checkout_empty_cart:
  assumes "carts cartID = Some cart" and "Items cart = []"
  shows "fst (fst (checkout F w carts cartID body)) = 400
       \<and> snd (checkout F w carts cartID body) = (carts, [])
       \<and> (bind_CheckoutRequest body \<noteq> None \<longrightarrow>
            fst (checkout F w carts cartID body) = (400, ErrorBody ''cannot checkout empty cart''))"
  using assms
  by (auto simp: checkout_def split: option.splits)

theorem checkout_empty_cart_witness:
  "checkout int_floats
     (example_world 200 \<lparr>Status = ''Authorized'', TransactionID = ''tx1'', Message = ''ok''\<rparr> None)
     [''c1'' \<mapsto> example_cart\<lparr>Items := []\<rparr>] ''c1'' example_card =
     ((400, ErrorBody ''cannot checkout empty cart''), [''c1'' \<mapsto> example_cart\<lparr>Items := []\<rparr>], [])"
proof -
  have h1: "[''c1'' \<mapsto> example_cart\<lparr>Items := []\<rparr>] ''c1'' = Some (example_cart\<lparr>Items := []\<rparr>)"
    by simp
  have h2: "Items (example_cart\<lparr>Items := []\<rparr>) = []"
    by simp
  have h3: "bind_CheckoutRequest example_card \<noteq> None"
    by (simp add: bind_CheckoutRequest_def example_card_def)
  from checkout_empty_cart
    [where carts = "[''c1'' \<mapsto> example_cart\<lparr>Items := []\<rparr>]" and cartID = "''c1''"
       and F = int_floats and body = example_card
       and w = "example_world 200 \<lparr>Status = ''Authorized'', TransactionID = ''tx1'', Message = ''ok''\<rparr> None",
     OF h1 h2] h3
  show ?thesis
    by (simp add: prod_eq_iff)
qed

text \<open>
  Claim C7, as the code has it. When the payment gateway answers 400 with a body that
  decodes, \<^verbatim>\<open>authorizePayment\<close> returns the error "invalid credit card format" with the
  gateway's message, an error of its own, and \<^verbatim>\<open>checkout\<close> answers as for every other
  error of the authorization: 500 "payment authorization failed", with the store as it
  was and nothing published.
\<close>

theorem gateway_400_answered_500:
  assumes "bind_CheckoutRequest body = Some req"
    and "carts cartID = Some cart"
    and "Items cart \<noteq> []"
    and "cca_marshal w \<lparr>cca_CreditCardNumber = CreditCardNumber req,
            Amount = calculateTotal F (Items cart)\<rparr> = Inr jsonData"
    and "cca_post w jsonData = PostResponse 400 (Inr ccaResp)"
  shows "authorizePayment w \<lparr>cca_CreditCardNumber = CreditCardNumber req,
            Amount = calculateTotal F (Items cart)\<rparr> =
           (Inl (InvalidCardFormat (Message ccaResp)), [CCAPost jsonData])
       \<and> checkout F w carts cartID body =
           ((500, ErrorCause ''payment authorization failed'' (InvalidCardFormat (Message ccaResp))),
            carts, [CCAPost jsonData])"
  using assms
  by (simp add: checkout_def authorizePayment_def Let_def)

theorem gateway_400_answered_500_witness:
  "checkout int_floats
     (example_world 400 \<lparr>Status = [], TransactionID = [], Message = ''Format must be XXXX-XXXX-XXXX-XXXX''\<rparr> None)
     [''c1'' \<mapsto> example_cart] ''c1'' (Some \<lparr>CreditCardNumber = ''1234''\<rparr>) =
     ((500, ErrorCause ''payment authorization failed''
              (InvalidCardFormat ''Format must be XXXX-XXXX-XXXX-XXXX'')),
      [''c1'' \<mapsto> example_cart], [CCAPost ''request''])"
proof -
  let ?w = "example_world 400
     \<lparr>Status = [], TransactionID = [], Message = ''Format must be XXXX-XXXX-XXXX-XXXX''\<rparr> None"
  have h1: "bind_CheckoutRequest (Some \<lparr>CreditCardNumber = ''1234''\<rparr>) = Some \<lparr>CreditCardNumber = ''1234''\<rparr>"
    by (simp add: bind_CheckoutRequest_def)
  have h2: "[''c1'' \<mapsto> example_cart] ''c1'' = Some example_cart"
    by simp
  have h3: "Items example_cart \<noteq> []"
    by (simp add: example_cart_def)
  have h4: "cca_marshal ?w \<lparr>cca_CreditCardNumber = CreditCardNumber \<lparr>CreditCardNumber = ''1234''\<rparr>,
            Amount = calculateTotal int_floats (Items example_cart)\<rparr> = Inr ''request''"
    by (simp add: example_world_def)
  have h5: "cca_post ?w ''request'' = PostResponse 400
     (Inr \<lparr>Status = [], TransactionID = [], Message = ''Format must be XXXX-XXXX-XXXX-XXXX''\<rparr>)"
    by (simp add: example_world_def)
  from gateway_400_answered_500
    [where carts = "[''c1'' \<mapsto> example_cart]" and cartID = "''c1''", OF h1 h2 h3 h4 h5]
  show ?thesis by simp
qed

text \<open>
  The claim as the specification states it, a 4xx answer, fails: for a card number
  the gateway refuses with 400, \<^verbatim>\<open>checkout\<close> answers 500.
\<close>

theorem gateway_400_counterexample:
  "cca_post (example_world 400
       \<lparr>Status = [], TransactionID = [], Message = ''Format must be XXXX-XXXX-XXXX-XXXX''\<rparr> None)
     ''request'' =
     PostResponse 400
       (Inr \<lparr>Status = [], TransactionID = [], Message = ''Format must be XXXX-XXXX-XXXX-XXXX''\<rparr>)
   \<and> fst (fst (checkout int_floats
       (example_world 400
          \<lparr>Status = [], TransactionID = [], Message = ''Format must be XXXX-XXXX-XXXX-XXXX''\<rparr> None)
       [''c1'' \<mapsto> example_cart] ''c1'' (Some \<lparr>CreditCardNumber = ''1234''\<rparr>))) = 500
   \<and> \<not> (400 \<le> fst (fst (checkout int_floats
       (example_world 400
          \<lparr>Status = [], TransactionID = [], Message = ''Format must be XXXX-XXXX-XXXX-XXXX''\<rparr> None)
       [''c1'' \<mapsto> example_cart] ''c1'' (Some \<lparr>CreditCardNumber = ''1234''\<rparr>)))
        \<and> fst (fst (checkout int_floats
       (example_world 400
          \<lparr>Status = [], TransactionID = [], Message = ''Format must be XXXX-XXXX-XXXX-XXXX''\<rparr> None)
       [''c1'' \<mapsto> example_cart] ''c1'' (Some \<lparr>CreditCardNumber = ''1234''\<rparr>))) < 500)"
  by (simp add: checkout_def authorizePayment_def bind_CheckoutRequest_def example_world_def
      example_cart_def)

section \<open>Adding items\<close>

lemma bind_AddItemRequest_Some:
  "bind_AddItemRequest body = Some req \<longleftrightarrow>
     body = Some req \<and> req_ProductID req \<noteq> [] \<and>
     1 \<le> sint (req_Quantity req) \<and> sint (req_Quantity req) \<le> 10000"
  by (auto simp: bind_AddItemRequest_def split: option.splits)

subsection \<open>Signed values of 64-bit sums\<close>

lemma sint_add_in_range:
  fixes a b :: go_int
  assumes "- 9223372036854775808 \<le> sint a + sint b" "sint a + sint b \<le> 9223372036854775807"
  shows "sint (a + b) = sint a + sint b"
  using assms by (simp add: sint_word_ariths signed_take_bit_int_eq_self)

lemma sint_go_int_lower: "- 9223372036854775808 \<le> sint (a :: go_int)"
  using sint_ge [of a] by simp

lemma sum_list_word_of_int:
  fixes xs :: "go_int list"
  shows "sum_list xs = word_of_int (\<Sum>x\<leftarrow>xs. sint x)"
  by (induction xs) simp_all

lemma sint_word_of_int_exact:
  assumes "- 9223372036854775808 \<le> k" "k \<le> 9223372036854775807"
  shows "sint (word_of_int k :: go_int) = k"
  using assms by (simp add: sint_sbintrunc' signed_take_bit_int_eq_self)

lemma sint_add_sum_list_exact:
  fixes a :: go_int
  assumes "- 9223372036854775808 \<le> sint a + (\<Sum>x\<leftarrow>xs. sint x)"
    and "sint a + (\<Sum>x\<leftarrow>xs. sint x) \<le> 9223372036854775807"
  shows "sint (a + sum_list xs) = sint a + (\<Sum>x\<leftarrow>xs. sint x)"
proof -
  have "a + sum_list xs = word_of_int (sint a + (\<Sum>x\<leftarrow>xs. sint x))"
    by (simp add: sum_list_word_of_int [of xs])
  then show ?thesis
    using assms by (simp only: sint_word_of_int_exact)
qed

subsection \<open>The loop of \<^verbatim>\<open>addItemToCart\<close>\<close>

lemma addItem_loop_first:
  "\<forall>x\<in>set pre. ProductID x \<noteq> req_ProductID req \<Longrightarrow> ProductID item = req_ProductID req \<Longrightarrow>
   addItem_loop (pre @ item # post) req =
     (pre @ item\<lparr>Quantity := Quantity item + req_Quantity req\<rparr> # post, True)"
  by (induction pre) auto

lemma addItem_loop_absent:
  "req_ProductID req \<notin> ProductID ` set items \<Longrightarrow> addItem_loop items req = (items, False)"
  by (induction items) auto

lemma addItem_loop_ids: "map ProductID (fst (addItem_loop items req)) = map ProductID items"
  by (induction items) (auto split: prod.splits)

lemma addItem_loop_found:
  "snd (addItem_loop items req) \<longleftrightarrow> req_ProductID req \<in> ProductID ` set items"
  by (induction items) (auto split: prod.splits)

text \<open>
  Claim C5. An accepted \<^verbatim>\<open>addItemToCart\<close> call on an existing cart: when the product id
  is in the cart, the first line with that id has the requested quantity added (Go's
  \<^verbatim>\<open>+=\<close> on \<^verbatim>\<open>int\<close>, the integer sum as long as it fits in 64 bits) and every other
  line, the order and the number of lines stay as they were; when it is not, one line
  with the requested quantity is appended. The new cart is the answer and is stored.
\<close>

theorem addItem_merges_or_appends:
  assumes "bind_AddItemRequest body = Some req" and "carts cartID = Some cart"
  shows "(\<forall>pre item post.
            Items cart = pre @ item # post \<and> ProductID item = req_ProductID req \<and>
            (\<forall>x \<in> set pre. ProductID x \<noteq> req_ProductID req) \<longrightarrow>
              (addItemToCart carts cartID body :: 'f response \<times> cart_store) =
                ((200, CartBody (cart\<lparr>Items :=
                    pre @ item\<lparr>Quantity := Quantity item + req_Quantity req\<rparr> # post\<rparr>)),
                 carts(cartID \<mapsto> cart\<lparr>Items :=
                    pre @ item\<lparr>Quantity := Quantity item + req_Quantity req\<rparr> # post\<rparr>))
              \<and> (sint (Quantity item) + sint (req_Quantity req) \<le> 9223372036854775807 \<longrightarrow>
                   sint (Quantity item + req_Quantity req) =
                     sint (Quantity item) + sint (req_Quantity req)))
       \<and> (req_ProductID req \<notin> ProductID ` set (Items cart) \<longrightarrow>
            (addItemToCart carts cartID body :: 'f response \<times> cart_store) =
              ((200, CartBody (cart\<lparr>Items := Items cart @
                  [\<lparr>ProductID = req_ProductID req, Quantity = req_Quantity req\<rparr>]\<rparr>)),
               carts(cartID \<mapsto> cart\<lparr>Items := Items cart @
                  [\<lparr>ProductID = req_ProductID req, Quantity = req_Quantity req\<rparr>]\<rparr>)))"
proof -
  from assms(1) have q: "1 \<le> sint (req_Quantity req)"
    by (simp add: bind_AddItemRequest_Some)
  have exact: "sint (a + req_Quantity req) = sint a + sint (req_Quantity req)"
    if "sint a + sint (req_Quantity req) \<le> 9223372036854775807" for a
    using that q sint_go_int_lower [of a] by (intro sint_add_in_range) auto
  show ?thesis
    using assms
    by (auto simp: addItemToCart_def addItem_items_def CartItem_of_def Let_def
        addItem_loop_first addItem_loop_absent exact)
qed

theorem addItem_merges_or_appends_witness:
  "(addItemToCart [''c1'' \<mapsto> example_cart] ''c1''
      (Some \<lparr>req_ProductID = ''P1'', req_Quantity = 3\<rparr>) :: int response \<times> cart_store) =
     ((200, CartBody (example_cart\<lparr>Items := [\<lparr>ProductID = ''P1'', Quantity = 8\<rparr>]\<rparr>)),
      [''c1'' \<mapsto> example_cart\<lparr>Items := [\<lparr>ProductID = ''P1'', Quantity = 8\<rparr>]\<rparr>])
   \<and> (addItemToCart [''c1'' \<mapsto> example_cart] ''c1''
      (Some \<lparr>req_ProductID = ''P2'', req_Quantity = 3\<rparr>) :: int response \<times> cart_store) =
     ((200, CartBody (example_cart\<lparr>Items :=
         [\<lparr>ProductID = ''P1'', Quantity = 5\<rparr>, \<lparr>ProductID = ''P2'', Quantity = 3\<rparr>]\<rparr>)),
      [''c1'' \<mapsto> example_cart\<lparr>Items :=
         [\<lparr>ProductID = ''P1'', Quantity = 5\<rparr>, \<lparr>ProductID = ''P2'', Quantity = 3\<rparr>]\<rparr>])"
proof -
  have c: "[''c1'' \<mapsto> example_cart] ''c1'' = Some example_cart"
    by simp
  have b1: "bind_AddItemRequest (Some \<lparr>req_ProductID = ''P1'', req_Quantity = 3\<rparr>) =
      Some \<lparr>req_ProductID = ''P1'', req_Quantity = 3\<rparr>"
    by (simp add: bind_AddItemRequest_def)
  have b2: "bind_AddItemRequest (Some \<lparr>req_ProductID = ''P2'', req_Quantity = 3\<rparr>) =
      Some \<lparr>req_ProductID = ''P2'', req_Quantity = 3\<rparr>"
    by (simp add: bind_AddItemRequest_def)
  have items: "Items example_cart = [] @ \<lparr>ProductID = ''P1'', Quantity = 5\<rparr> # []"
    by (simp add: example_cart_def)
  have absent: "req_ProductID \<lparr>req_ProductID = ''P2'', req_Quantity = 3\<rparr>
      \<notin> ProductID ` set (Items example_cart)"
    by (simp add: example_cart_def)
  note merge = addItem_merges_or_appends
    [where carts = "[''c1'' \<mapsto> example_cart]" and cartID = "''c1''" and ?'f = int, OF b1 c,
     THEN conjunct1, THEN spec, THEN spec, THEN spec,
     of "[]" "\<lparr>ProductID = ''P1'', Quantity = 5\<rparr>" "[]"]
  from merge items
  have first: "(addItemToCart [''c1'' \<mapsto> example_cart] ''c1''
      (Some \<lparr>req_ProductID = ''P1'', req_Quantity = 3\<rparr>) :: int response \<times> cart_store) =
     ((200, CartBody (example_cart\<lparr>Items := [\<lparr>ProductID = ''P1'', Quantity = 8\<rparr>]\<rparr>)),
      [''c1'' \<mapsto> example_cart\<lparr>Items := [\<lparr>ProductID = ''P1'', Quantity = 8\<rparr>]\<rparr>])"
    by simp
  from addItem_merges_or_appends
    [where carts = "[''c1'' \<mapsto> example_cart]" and cartID = "''c1''" and ?'f = int, OF b2 c]
    absent
  have second: "(addItemToCart [''c1'' \<mapsto> example_cart] ''c1''
      (Some \<lparr>req_ProductID = ''P2'', req_Quantity = 3\<rparr>) :: int response \<times> cart_store) =
     ((200, CartBody (example_cart\<lparr>Items :=
         [\<lparr>ProductID = ''P1'', Quantity = 5\<rparr>, \<lparr>ProductID = ''P2'', Quantity = 3\<rparr>]\<rparr>)),
      [''c1'' \<mapsto> example_cart\<lparr>Items :=
         [\<lparr>ProductID = ''P1'', Quantity = 5\<rparr>, \<lparr>ProductID = ''P2'', Quantity = 3\<rparr>]\<rparr>])"
    by (simp add: example_cart_def)
  from first second show ?thesis by simp
qed

subsection \<open>Sequences of calls\<close>

lemma run_ops_snoc: "run_ops carts (ops @ [op]) = apply_op (run_ops carts ops) op"
  by (simp add: run_ops_def)

lemma run_ops_Cons: "run_ops carts (op # ops) = run_ops (apply_op carts op) ops"
  by (simp add: run_ops_def)

lemma apply_op_AddItem_accepted:
  "bind_AddItemRequest body = Some req \<Longrightarrow> carts cartID = Some cart \<Longrightarrow>
   apply_op carts (AddItem cartID body) =
     carts(cartID \<mapsto> cart\<lparr>Items := addItem_items (Items cart) req\<rparr>)"
  by (simp add: addItemToCart_def Let_def)

lemma addItem_items_distinct:
  assumes "distinct (map ProductID items)"
  shows "distinct (map ProductID (addItem_items items req))"
proof -
  obtain items' found where eq: "addItem_loop items req = (items', found)"
    by force
  have ids: "map ProductID items' = map ProductID items"
    using addItem_loop_ids [of items req] by (simp add: eq)
  have found: "found \<longleftrightarrow> req_ProductID req \<in> set (map ProductID items)"
    using addItem_loop_found [of items req] by (simp add: eq)
  show ?thesis
    using assms found by (simp add: addItem_items_def eq CartItem_of_def ids)
qed

lemma addItem_loop_bounds:
  assumes "\<forall>item \<in> set items. 1 \<le> sint (Quantity item) \<and> sint (Quantity item) \<le> B"
    and "1 \<le> sint (req_Quantity req)" and "sint (req_Quantity req) \<le> 10000"
    and "B + 10000 \<le> 9223372036854775807"
  shows "\<forall>item \<in> set (fst (addItem_loop items req)).
           1 \<le> sint (Quantity item) \<and> sint (Quantity item) \<le> B + 10000"
  using assms
proof (induction items)
  case Nil
  then show ?case by simp
next
  case (Cons item items)
  have "sint (Quantity item + req_Quantity req) = sint (Quantity item) + sint (req_Quantity req)"
    using Cons.prems by (intro sint_add_in_range) auto
  with Cons show ?case
    by (auto split: prod.splits)
qed

lemma addItem_items_bounds:
  assumes "\<forall>item \<in> set items. 1 \<le> sint (Quantity item) \<and> sint (Quantity item) \<le> B"
    and "1 \<le> sint (req_Quantity req)" and "sint (req_Quantity req) \<le> 10000"
    and "B + 10000 \<le> 9223372036854775807" and "0 \<le> B"
  shows "\<forall>item \<in> set (addItem_items items req).
           1 \<le> sint (Quantity item) \<and> sint (Quantity item) \<le> B + 10000"
proof -
  obtain items' found where eq: "addItem_loop items req = (items', found)"
    by force
  have "\<forall>item \<in> set items'. 1 \<le> sint (Quantity item) \<and> sint (Quantity item) \<le> B + 10000"
    using addItem_loop_bounds [OF assms(1-4)] by (simp add: eq)
  then show ?thesis
    using assms(2,3,5) by (auto simp: addItem_items_def eq CartItem_of_def)
qed

lemma apply_op_distinct:
  assumes "\<forall>cart \<in> ran carts. distinct (map ProductID (Items cart))"
  shows "\<forall>cart \<in> ran (apply_op carts op). distinct (map ProductID (Items cart))"
proof (cases op)
  case (CreateCart uuid now body)
  with assms show ?thesis
    by (auto simp: createCart_def Let_def ran_def split: option.splits if_splits)
next
  case (AddItem cartID body)
  with assms show ?thesis
    by (auto simp: addItemToCart_def Let_def ran_def addItem_items_distinct
        split: option.splits if_splits)
qed

lemma run_ops_distinct:
  "\<forall>cart \<in> ran (run_ops Map.empty ops). distinct (map ProductID (Items cart))"
proof (induction ops rule: rev_induct)
  case Nil
  show ?case by (simp add: run_ops_def)
next
  case (snoc op ops)
  then show ?case
    unfolding run_ops_snoc by (rule apply_op_distinct)
qed

lemma apply_op_bounds:
  assumes "\<forall>cart \<in> ran carts. \<forall>item \<in> set (Items cart).
             1 \<le> sint (Quantity item) \<and> sint (Quantity item) \<le> B"
    and "0 \<le> B"
    and "accepted_AddItem op \<longrightarrow> B + 10000 \<le> 9223372036854775807"
  shows "\<forall>cart \<in> ran (apply_op carts op). \<forall>item \<in> set (Items cart).
           1 \<le> sint (Quantity item) \<and>
           sint (Quantity item) \<le> (if accepted_AddItem op then B + 10000 else B)"
proof (cases op)
  case (CreateCart uuid now body)
  with assms show ?thesis
    by (auto simp: createCart_def Let_def ran_def split: option.splits if_splits)
next
  case (AddItem cartID body)
  show ?thesis
  proof (cases "bind_AddItemRequest body")
    case None
    with AddItem assms show ?thesis
      by (simp add: addItemToCart_def)
  next
    case (Some req)
    then have q: "1 \<le> sint (req_Quantity req)" "sint (req_Quantity req) \<le> 10000"
      by (simp_all add: bind_AddItemRequest_Some)
    have big: "B + 10000 \<le> 9223372036854775807"
      using assms(3) AddItem Some by simp
    show ?thesis
    proof (cases "carts cartID")
      case None
      with AddItem Some assms show ?thesis
        by (fastforce simp: addItemToCart_def)
    next
      case (Some cart)
      then have "cart \<in> ran carts" by (auto simp: ran_def)
      with assms(1) have "\<forall>item \<in> set (Items cart).
          1 \<le> sint (Quantity item) \<and> sint (Quantity item) \<le> B"
        by blast
      from addItem_items_bounds [OF this q big assms(2)]
      have new: "\<forall>item \<in> set (addItem_items (Items cart) req).
           1 \<le> sint (Quantity item) \<and> sint (Quantity item) \<le> B + 10000" .
      have old: "\<forall>c \<in> ran carts. \<forall>item \<in> set (Items c).
             1 \<le> sint (Quantity item) \<and> sint (Quantity item) \<le> B + 10000"
        using assms(1) by fastforce
      show ?thesis
        using AddItem \<open>bind_AddItemRequest body = Some req\<close> Some new old
        by (auto simp: addItemToCart_def Let_def ran_def split: if_splits)
    qed
  qed
qed

lemma run_ops_bounds:
  assumes "10000 * int (length (filter accepted_AddItem ops)) \<le> 9223372036854775807"
  shows "\<forall>cart \<in> ran (run_ops Map.empty ops). \<forall>item \<in> set (Items cart).
           1 \<le> sint (Quantity item) \<and>
           sint (Quantity item) \<le> 10000 * int (length (filter accepted_AddItem ops))"
  using assms
proof (induction ops rule: rev_induct)
  case Nil
  show ?case by (simp add: run_ops_def)
next
  case (snoc op ops)
  let ?B = "10000 * int (length (filter accepted_AddItem ops))"
  have le: "?B \<le> 9223372036854775807" using snoc.prems by (simp split: if_splits)
  have step: "accepted_AddItem op \<longrightarrow> ?B + 10000 \<le> 9223372036854775807"
    using snoc.prems by (simp split: if_splits)
  from apply_op_bounds [OF snoc.IH [OF le] _ step]
  show ?case
    unfolding run_ops_snoc by (auto split: if_splits)
qed

lemma run_replicate_AddItem:
  assumes "carts cartID = Some cart" and "Items cart = []"
    and "bind_AddItemRequest (Some req) = Some req" and "n \<noteq> 0"
  shows "run_ops carts (replicate n (AddItem cartID (Some req))) cartID =
           Some (cart\<lparr>Items := [\<lparr>ProductID = req_ProductID req,
                                  Quantity = of_nat n * req_Quantity req\<rparr>]\<rparr>)"
proof -
  have one: "run_ops carts (replicate (Suc m) (AddItem cartID (Some req))) cartID =
           Some (cart\<lparr>Items := [\<lparr>ProductID = req_ProductID req,
                                  Quantity = of_nat (Suc m) * req_Quantity req\<rparr>]\<rparr>)" for m
  proof (induction m)
    case 0
    show ?case using assms(1-3)
      by (simp add: run_ops_def addItemToCart_def addItem_items_def CartItem_of_def Let_def)
  next
    case (Suc m)
    have "replicate (Suc (Suc m)) (AddItem cartID (Some req)) =
          replicate (Suc m) (AddItem cartID (Some req)) @ [AddItem cartID (Some req)]"
      by (simp add: replicate_append_same)
    then have "run_ops carts (replicate (Suc (Suc m)) (AddItem cartID (Some req))) =
          apply_op (run_ops carts (replicate (Suc m) (AddItem cartID (Some req))))
            (AddItem cartID (Some req))"
      by (simp only: run_ops_snoc)
    then show ?case
      using Suc assms(3)
      by (simp add: addItemToCart_def addItem_items_def CartItem_of_def Let_def algebra_simps)
  qed
  from assms(4) obtain m where "n = Suc m" by (cases n) auto
  with one show ?thesis by simp
qed

text \<open>
  Claim C6, as the code has it. In every store reached from the empty store by calls
  of \<^verbatim>\<open>createCart\<close> and \<^verbatim>\<open>addItemToCart\<close>, the product ids of every cart are pairwise
  distinct; and when at most 922337203685477 of the calls are accepted
  \<^verbatim>\<open>addItemToCart\<close> calls (each adds at most 10000, so no quantity passes
  \<open>2^63 - 1\<close>), every quantity is at least 1.
\<close>

theorem reachable_cart_invariant:
  "(\<forall>cart \<in> ran (run_ops Map.empty ops). distinct (map ProductID (Items cart))) \<and>
   (length (filter accepted_AddItem ops) \<le> 922337203685477 \<longrightarrow>
      (\<forall>cart \<in> ran (run_ops Map.empty ops). cart_invariant cart))"
proof -
  have "\<forall>cart \<in> ran (run_ops Map.empty ops). cart_invariant cart"
    if "length (filter accepted_AddItem ops) \<le> 922337203685477"
  proof -
    from that have "10000 * int (length (filter accepted_AddItem ops)) \<le> 9223372036854775807"
      by simp
    from run_ops_bounds [OF this] run_ops_distinct [of ops]
    show ?thesis by (simp add: cart_invariant_def)
  qed
  with run_ops_distinct [of ops] show ?thesis by blast
qed

theorem reachable_cart_invariant_witness:
  "run_ops Map.empty
     [CreateCart ''c1'' 0 (Some \<lparr>req_CustomerID = ''u1''\<rparr>),
      AddItem ''c1'' (Some \<lparr>req_ProductID = ''P1'', req_Quantity = 2\<rparr>),
      AddItem ''c1'' (Some \<lparr>req_ProductID = ''P1'', req_Quantity = 3\<rparr>)] ''c1'' =
     Some \<lparr>CartID = ''c1'', CustomerID = ''u1'',
           Items = [\<lparr>ProductID = ''P1'', Quantity = 5\<rparr>], CreatedAt = 0\<rparr>
   \<and> cart_invariant \<lparr>CartID = ''c1'', CustomerID = ''u1'',
           Items = [\<lparr>ProductID = ''P1'', Quantity = 5\<rparr>], CreatedAt = 0\<rparr>"
proof -
  let ?ops = "[CreateCart ''c1'' 0 (Some \<lparr>req_CustomerID = ''u1''\<rparr>),
      AddItem ''c1'' (Some \<lparr>req_ProductID = ''P1'', req_Quantity = 2\<rparr>),
      AddItem ''c1'' (Some \<lparr>req_ProductID = ''P1'', req_Quantity = 3\<rparr>)]"
  let ?cart = "\<lparr>CartID = ''c1'', CustomerID = ''u1'',
           Items = [\<lparr>ProductID = ''P1'', Quantity = 5\<rparr>], CreatedAt = 0\<rparr>"
  have r: "run_ops Map.empty ?ops ''c1'' = Some ?cart"
    by (simp add: run_ops_def createCart_def addItemToCart_def addItem_items_def
        CartItem_of_def bind_CreateCartRequest_def bind_AddItemRequest_def Let_def)
  then have "?cart \<in> ran (run_ops Map.empty ?ops)"
    by (auto simp: ran_def)
  moreover have "length (filter accepted_AddItem ?ops) \<le> 922337203685477"
    by (simp add: bind_AddItemRequest_def)
  ultimately have "cart_invariant ?cart"
    using reachable_cart_invariant [of ?ops] by blast
  with r show ?thesis by simp
qed

text \<open>
  The claim as the specification states it, for every sequence, fails: after
  922337203685478 accepted calls that add 10000 of one product to one cart, the
  quantity of the line has wrapped around to a negative value.
\<close>

theorem cart_invariant_overflow_counterexample:
  "run_ops Map.empty
     (CreateCart ''c1'' 0 (Some \<lparr>req_CustomerID = ''u1''\<rparr>) #
      replicate 922337203685478
        (AddItem ''c1'' (Some \<lparr>req_ProductID = ''P1'', req_Quantity = 10000\<rparr>))) ''c1'' =
     Some \<lparr>CartID = ''c1'', CustomerID = ''u1'',
           Items = [\<lparr>ProductID = ''P1'', Quantity = 9223372036854780000\<rparr>], CreatedAt = 0\<rparr>
   \<and> sint (9223372036854780000 :: go_int) = - 9223372036854771616
   \<and> \<not> cart_invariant \<lparr>CartID = ''c1'', CustomerID = ''u1'',
           Items = [\<lparr>ProductID = ''P1'', Quantity = 9223372036854780000\<rparr>], CreatedAt = 0\<rparr>"
proof -
  let ?carts = "[''c1'' \<mapsto> \<lparr>CartID = ''c1'', CustomerID = ''u1'', Items = [], CreatedAt = 0\<rparr>]"
  have start: "run_ops Map.empty
     (CreateCart ''c1'' 0 (Some \<lparr>req_CustomerID = ''u1''\<rparr>) # ops) = run_ops ?carts ops" for ops
    by (simp add: run_ops_def createCart_def bind_CreateCartRequest_def Let_def)
  have acc: "bind_AddItemRequest (Some \<lparr>req_ProductID = ''P1'', req_Quantity = 10000\<rparr>)
       = Some \<lparr>req_ProductID = ''P1'', req_Quantity = 10000\<rparr>"
    by (simp add: bind_AddItemRequest_def)
  have "run_ops ?carts (replicate 922337203685478
        (AddItem ''c1'' (Some \<lparr>req_ProductID = ''P1'', req_Quantity = 10000\<rparr>))) ''c1'' =
     Some \<lparr>CartID = ''c1'', CustomerID = ''u1'',
           Items = [\<lparr>ProductID = ''P1'', Quantity = 9223372036854780000\<rparr>], CreatedAt = 0\<rparr>"
    using run_replicate_AddItem [of ?carts "''c1''" _ _ 922337203685478, OF _ _ acc]
    by simp
  then show ?thesis
    by (simp add: start cart_invariant_def)
qed

subsection \<open>The quantity of a line\<close>

lemma line_quantity_addItem_loop:
  "line_quantity (fst (addItem_loop items req)) p =
     (if p = req_ProductID req
      then map_option (\<lambda>q. q + req_Quantity req) (line_quantity items p)
      else line_quantity items p)"
  by (induction items) (auto simp: line_quantity_def split: prod.splits)

lemma line_quantity_append:
  "line_quantity (items @ [item]) p =
     (case line_quantity items p of Some q \<Rightarrow> Some q
      | None \<Rightarrow> if ProductID item = p then Some (Quantity item) else None)"
  by (induction items) (auto simp: line_quantity_def)

lemma line_quantity_None: "line_quantity items p = None \<longleftrightarrow> p \<notin> ProductID ` set items"
  by (induction items) (auto simp: line_quantity_def)

lemma line_quantity_addItem_items:
  "line_quantity (addItem_items items req) p =
     (if p = req_ProductID req
      then Some ((case line_quantity items p of None \<Rightarrow> 0 | Some q \<Rightarrow> q) + req_Quantity req)
      else line_quantity items p)"
proof -
  obtain items' found where eq: "addItem_loop items req = (items', found)"
    by force
  have lq: "line_quantity items' p =
     (if p = req_ProductID req
      then map_option (\<lambda>q. q + req_Quantity req) (line_quantity items p)
      else line_quantity items p)"
    using line_quantity_addItem_loop [of items req p] by (simp add: eq)
  have found: "found \<longleftrightarrow> line_quantity items (req_ProductID req) \<noteq> None"
    using addItem_loop_found [of items req] by (simp add: eq line_quantity_None)
  show ?thesis
    using found
    by (auto simp: addItem_items_def eq lq line_quantity_append CartItem_of_def
        split: option.splits)
qed

lemma run_AddItems_line_quantity:
  assumes "carts cartID = Some cart"
    and "\<forall>req \<in> set reqs. bind_AddItemRequest (Some req) = Some req \<and> req_ProductID req = p"
    and "reqs \<noteq> []"
  shows "\<exists>cart'. run_ops carts (map (\<lambda>req. AddItem cartID (Some req)) reqs) cartID = Some cart'
           \<and> line_quantity (Items cart') p =
               Some ((case line_quantity (Items cart) p of None \<Rightarrow> 0 | Some q \<Rightarrow> q)
                      + sum_list (map req_Quantity reqs))"
  using assms
proof (induction reqs arbitrary: carts cart)
  case Nil
  then show ?case by simp
next
  case (Cons req reqs)
  let ?cart1 = "cart\<lparr>Items := addItem_items (Items cart) req\<rparr>"
  let ?carts1 = "carts(cartID \<mapsto> ?cart1)"
  have acc: "bind_AddItemRequest (Some req) = Some req" and p: "req_ProductID req = p"
    using Cons.prems(2) by simp_all
  have step: "apply_op carts (AddItem cartID (Some req)) = ?carts1"
    using acc Cons.prems(1) by (rule apply_op_AddItem_accepted)
  have run: "run_ops carts (map (\<lambda>req. AddItem cartID (Some req)) (req # reqs)) =
             run_ops ?carts1 (map (\<lambda>req. AddItem cartID (Some req)) reqs)"
    by (simp only: list.map run_ops_Cons step)
  have lq1: "line_quantity (Items ?cart1) p =
     Some ((case line_quantity (Items cart) p of None \<Rightarrow> 0 | Some q \<Rightarrow> q) + req_Quantity req)"
    by (simp add: line_quantity_addItem_items p)
  show ?case
  proof (cases "reqs = []")
    case True
    then show ?thesis
      using run lq1 by (simp add: run_ops_def)
  next
    case False
    have c1: "?carts1 cartID = Some ?cart1" by simp
    have rest: "\<forall>req \<in> set reqs.
        bind_AddItemRequest (Some req) = Some req \<and> req_ProductID req = p"
      using Cons.prems(2) by simp
    from Cons.IH [of ?carts1 ?cart1, OF c1 rest False]
    obtain cart' where
      "run_ops ?carts1 (map (\<lambda>req. AddItem cartID (Some req)) reqs) cartID = Some cart'"
      "line_quantity (Items cart') p =
         Some ((case line_quantity (Items ?cart1) p of None \<Rightarrow> 0 | Some q \<Rightarrow> q)
                + sum_list (map req_Quantity reqs))"
      by blast
    then show ?thesis
      unfolding run lq1 by (simp add: add.assoc)
  qed
qed

text \<open>
  Claim C10. The bounds 1 and 10000 are checked on each request and on nothing else:
  after any sequence of accepted \<^verbatim>\<open>addItemToCart\<close> calls on one cart and one product,
  the quantity of the product's line is what the line had before (nothing when there
  was no line) plus the sum of the requested quantities, in Go's \<^verbatim>\<open>int\<close>; it is that
  sum as an integer whenever the sum fits in 64 bits. Two requests of 10000 give 20000.
\<close>

theorem addItem_quantity_accumulates:
  assumes "carts cartID = Some cart"
    and "\<forall>req \<in> set reqs. bind_AddItemRequest (Some req) = Some req \<and> req_ProductID req = p"
    and "reqs \<noteq> []"
  shows "\<exists>cart'. run_ops carts (map (\<lambda>req. AddItem cartID (Some req)) reqs) cartID = Some cart'
           \<and> line_quantity (Items cart') p =
               Some ((case line_quantity (Items cart) p of None \<Rightarrow> 0 | Some q \<Rightarrow> q)
                      + sum_list (map req_Quantity reqs))
           \<and> (line_quantity (Items cart) p = None \<and>
               (\<Sum>req\<leftarrow>reqs. sint (req_Quantity req)) \<le> 9223372036854775807 \<longrightarrow>
                 map_option sint (line_quantity (Items cart') p) =
                   Some (\<Sum>req\<leftarrow>reqs. sint (req_Quantity req)))"
proof -
  from run_AddItems_line_quantity [where carts = carts and cartID = cartID, OF assms]
  obtain cart' where
    r: "run_ops carts (map (\<lambda>req. AddItem cartID (Some req)) reqs) cartID = Some cart'"
    and lq: "line_quantity (Items cart') p =
               Some ((case line_quantity (Items cart) p of None \<Rightarrow> 0 | Some q \<Rightarrow> q)
                      + sum_list (map req_Quantity reqs))"
    by blast
  have nonneg: "0 \<le> (\<Sum>req\<leftarrow>reqs. sint (req_Quantity req))"
    using assms(2) by (intro sum_list_nonneg) (auto simp: bind_AddItemRequest_Some)
  have "sint (0 + sum_list (map req_Quantity reqs)) = (\<Sum>req\<leftarrow>reqs. sint (req_Quantity req))"
    if "(\<Sum>req\<leftarrow>reqs. sint (req_Quantity req)) \<le> 9223372036854775807"
    using sint_add_sum_list_exact [of 0 "map req_Quantity reqs"] that nonneg
    by (simp add: comp_def)
  with r lq show ?thesis
    by auto
qed

theorem addItem_quantity_accumulates_witness:
  "(\<exists>cart'. run_ops [''c1'' \<mapsto> example_cart]
       [AddItem ''c1'' (Some \<lparr>req_ProductID = ''P2'', req_Quantity = 10000\<rparr>),
        AddItem ''c1'' (Some \<lparr>req_ProductID = ''P2'', req_Quantity = 10000\<rparr>)] ''c1'' = Some cart'
      \<and> line_quantity (Items cart') ''P2'' = Some 20000)
   \<and> 10000 < sint (20000 :: go_int)"
proof -
  let ?req = "\<lparr>req_ProductID = ''P2'', req_Quantity = 10000\<rparr>"
  have c: "[''c1'' \<mapsto> example_cart] ''c1'' = Some example_cart"
    by simp
  have acc: "\<forall>req \<in> set [?req, ?req].
      bind_AddItemRequest (Some req) = Some req \<and> req_ProductID req = ''P2''"
    by (simp add: bind_AddItemRequest_def)
  have ne: "[?req, ?req] \<noteq> []"
    by simp
  have q0: "line_quantity (Items example_cart) ''P2'' = None"
    by (simp add: line_quantity_def example_cart_def)
  from addItem_quantity_accumulates
    [where carts = "[''c1'' \<mapsto> example_cart]" and cartID = "''c1''", OF c acc ne]
  obtain cart' where
    "run_ops [''c1'' \<mapsto> example_cart] (map (\<lambda>req. AddItem ''c1'' (Some req)) [?req, ?req]) ''c1''
       = Some cart'"
    "line_quantity (Items cart') ''P2'' =
       Some ((case line_quantity (Items example_cart) ''P2'' of None \<Rightarrow> 0 | Some q \<Rightarrow> q)
              + sum_list (map req_Quantity [?req, ?req]))"
    by blast
  then have "run_ops [''c1'' \<mapsto> example_cart]
       [AddItem ''c1'' (Some ?req), AddItem ''c1'' (Some ?req)] ''c1'' = Some cart'
      \<and> line_quantity (Items cart') ''P2'' = Some 20000"
    by (simp add: q0)
  then show ?thesis
    by auto
qed

section \<open>The warehouse consumer\<close>

lemma totalOrders_add_product_qty [simp]:
  "totalOrders (add_product_qty st item) = totalOrders st"
  by (simp add: add_product_qty_def)

lemma totalOrders_foldl_add_product_qty [simp]:
  "totalOrders (foldl add_product_qty st items) = totalOrders st"
  by (induction items arbitrary: st) simp_all

lemma totalOrders_count_order [simp]: "totalOrders (count_order st) = totalOrders st + 1"
  by (simp add: count_order_def)

lemma qty_of_count_order [simp]: "qty_of (count_order st) p = qty_of st p"
  by (simp add: qty_of_def count_order_def)

lemma qty_of_add_product_qty:
  "qty_of (add_product_qty st item) p =
     qty_of st p + (if ProductID item = p then Quantity item else 0)"
  by (simp add: qty_of_def add_product_qty_def)

lemma processMessages_append:
  "processMessages um st (xs @ ys) =
     (fst (processMessages um (fst (processMessages um st xs)) ys),
      snd (processMessages um st xs) @ snd (processMessages um (fst (processMessages um st xs)) ys))"
  by (induction xs arbitrary: st) (simp_all split: prod.splits)

text \<open>
  Claim C8. A delivery whose body does not decode is rejected with
  \<^verbatim>\<open>Nack(false, false)\<close>, requeue off, and never acknowledged; the counters stay as they
  were. In the loop of a worker the counters end as if the delivery had not been there
  and the one call made for it is that \<^verbatim>\<open>Nack\<close>; in the pool, the worker holding it
  makes that call, leaves the counters alone and goes back to receiving.
\<close>

theorem poison_message_rejected:
  assumes "um (Body msg) = None"
  shows "processMessage um st msg = (st, Nack msg False False)
       \<and> fst (processMessages um st (before @ msg # after)) =
           fst (processMessages um st (before @ after))
       \<and> snd (processMessages um st (before @ msg # after)) =
           snd (processMessages um st before) @ Nack msg False False #
           snd (processMessages um (fst (processMessages um st before)) after)
       \<and> (i < length (workers c) \<and> workers c ! i = Unmarshalling msg \<longrightarrow>
            step um c (Worker i) =
              c\<lparr>broker := broker c @ [Nack msg False False],
                workers := (workers c)[i := Receiving]\<rparr>)"
proof -
  have one: "processMessage um st' msg = (st', Nack msg False False)" for st'
    using assms by (simp add: processMessage_def)
  have "processMessages um st' (msg # after) =
      (fst (processMessages um st' after), Nack msg False False # snd (processMessages um st' after))"
    for st'
    by (simp add: one split: prod.splits)
  then show ?thesis
    using assms by (simp add: one processMessages_append step_def worker_step_def)
qed

theorem poison_message_rejected_witness:
  "processMessage example_unmarshal zero_stats \<lparr>DeliveryTag = 7, Body = ''{''\<rparr> =
     (zero_stats, Nack \<lparr>DeliveryTag = 7, Body = ''{''\<rparr> False False)
   \<and> example_unmarshal ''{'' = None"
proof -
  have h: "example_unmarshal (Body \<lparr>DeliveryTag = 7, Body = ''{''\<rparr>) = None"
    by (simp add: example_unmarshal_def)
  from poison_message_rejected
    [where um = example_unmarshal and msg = "\<lparr>DeliveryTag = 7, Body = ''{''\<rparr>"
       and st = zero_stats, OF h] h
  show ?thesis by simp
qed

text \<open>
  Claim C9. A delivery whose body decodes is counted whatever the order holds:
  \<^verbatim>\<open>totalOrders\<close> goes up by 1 (Go's \<^verbatim>\<open>int64\<close> addition, the integer successor below
  \<open>2^63 - 1\<close>) and the delivery is acknowledged; no field of the order is looked at
  but the items, whose quantities are added. For an order without items, such as the
  order with every field at its zero value, only \<^verbatim>\<open>totalOrders\<close> changes.
\<close>

theorem decoded_message_counted:
  assumes "um (Body msg) = Some order"
  shows "processMessage um st msg = (processOrder st order, Ack msg False)
       \<and> totalOrders (processOrder st order) = totalOrders st + 1
       \<and> (sint (totalOrders st) < 9223372036854775807 \<longrightarrow>
            sint (totalOrders (processOrder st order)) = sint (totalOrders st) + 1)
       \<and> (order_Items order = [] \<longrightarrow>
            processOrder st order = st\<lparr>totalOrders := totalOrders st + 1\<rparr>)"
proof -
  have "sint (totalOrders st + 1) = sint (totalOrders st) + 1"
    if "sint (totalOrders st) < 9223372036854775807"
    using that sint_go_int_lower [of "totalOrders st"]
      sint_add_in_range [of "totalOrders st" 1] by simp
  then show ?thesis
    using assms by (simp add: processMessage_def processOrder_def count_order_def)
qed

theorem decoded_message_counted_witness:
  "processMessage example_unmarshal zero_stats \<lparr>DeliveryTag = 8, Body = ''null''\<rparr> =
     (\<lparr>totalOrders = 1, productQty = Map.empty\<rparr>, Ack \<lparr>DeliveryTag = 8, Body = ''null''\<rparr> False)
   \<and> example_unmarshal ''null'' =
       Some \<lparr>OrderID = [], order_CartID = [], order_CustomerID = [],
             order_Items = [], Timestamp = []\<rparr>"
proof -
  have h: "example_unmarshal (Body \<lparr>DeliveryTag = 8, Body = ''null''\<rparr>) =
       Some \<lparr>OrderID = [], order_CartID = [], order_CustomerID = [],
             order_Items = [], Timestamp = []\<rparr>"
    by (simp add: example_unmarshal_def)
  from decoded_message_counted
    [where um = example_unmarshal and msg = "\<lparr>DeliveryTag = 8, Body = ''null''\<rparr>"
       and st = zero_stats, OF h] h
  show ?thesis by (simp add: zero_stats_def)
qed

section \<open>The worker pool\<close>

lemma sum_list_map_update:
  fixes f :: "'a \<Rightarrow> 'b::comm_monoid_add"
  shows "i < length ws \<Longrightarrow> (\<Sum>w\<leftarrow>ws[i := x]. f w) + f (ws ! i) = (\<Sum>w\<leftarrow>ws. f w) + f x"
proof (induction ws arbitrary: i)
  case Nil
  then show ?case by simp
next
  case (Cons w ws)
  show ?case
  proof (cases i)
    case 0
    then show ?thesis by (simp add: ac_simps)
  next
    case (Suc j)
    with Cons.prems have "j < length ws" by simp
    from Cons.IH [OF this] Suc show ?thesis
      by (simp add: ac_simps)
  qed
qed

lemma sum_list_replicate_zero: "sum_list (replicate n (0 :: 'b::comm_monoid_add)) = 0"
  by (induction n) simp_all

lemma product_sum_Cons:
  "product_sum p (item # items) =
     (if ProductID item = p then Quantity item else 0) + product_sum p items"
  by (simp add: product_sum_def)

lemma product_sum_Nil [simp]: "product_sum p [] = 0"
  by (simp add: product_sum_def)

lemma worker_step_invariant:
  assumes inv: "pool_invariant um ds c" and i: "i < length (workers c)"
  shows "pool_invariant um ds (worker_step um c i)"
proof -
  let ?ws = "workers c"
  have H: "(\<Sum>w\<leftarrow>?ws[i := x]. held w) + held (?ws ! i) = (\<Sum>w\<leftarrow>?ws. held w) + held x" for x
    using i by (rule sum_list_map_update)
  have C: "(\<Sum>w\<leftarrow>?ws[i := x]. counted w) + counted (?ws ! i) =
      (\<Sum>w\<leftarrow>?ws. counted w) + counted x" for x
    using i by (rule sum_list_map_update)
  have A: "(\<Sum>w\<leftarrow>?ws[i := x]. added um p w) =
      (\<Sum>w\<leftarrow>?ws. added um p w) + added um p x - added um p (?ws ! i)" for x p
    using sum_list_map_update [OF i, of "added um p" x] by (simp add: algebra_simps)
  have ok: "list_all (worker_ok um) (?ws[i := x])" if "worker_ok um x" for x
    using inv that set_update_subset_insert [of ?ws i x]
    by (auto simp: pool_invariant_def list_all_iff)
  have oki: "worker_ok um (?ws ! i)"
    using inv i by (simp add: pool_invariant_def list_all_length)
  show ?thesis
  proof (cases "?ws ! i")
    case Receiving
    show ?thesis
    proof (cases "messageChan c")
      case Nil
      with Receiving inv show ?thesis by (simp add: worker_step_def)
    next
      case (Cons msg rest)
      with Receiving inv H [of "Unmarshalling msg"] C [of "Unmarshalling msg"]
        ok [of "Unmarshalling msg"]
      show ?thesis
        by (simp add: worker_step_def pool_invariant_def A)
    qed
  next
    case (Unmarshalling msg)
    show ?thesis
    proof (cases "um (Body msg)")
      case None
      with Unmarshalling inv H [of Receiving, symmetric] C [of Receiving] ok [of Receiving]
      show ?thesis
        by (simp add: worker_step_def pool_invariant_def A)
    next
      case (Some order)
      with Unmarshalling inv H [of "Counting msg order"] C [of "Counting msg order"]
        ok [of "Counting msg order"]
      show ?thesis
        by (simp add: worker_step_def pool_invariant_def A)
    qed
  next
    case (Counting msg order)
    with oki have "um (Body msg) = Some order" by simp
    then have "message_items um msg = order_Items order"
      by (simp add: message_items_def)
    with Counting inv H [of "Updating msg (order_Items order)"]
      C [of "Updating msg (order_Items order)"] ok [of "Updating msg (order_Items order)"]
    show ?thesis
      by (simp add: worker_step_def pool_invariant_def A)
  next
    case (Updating msg items)
    show ?thesis
    proof (cases items)
      case Nil
      with Updating inv H [of Receiving, symmetric] C [of Receiving, symmetric] ok [of Receiving]
      show ?thesis
        by (simp add: worker_step_def pool_invariant_def A)
    next
      case (Cons item rest)
      with Updating inv H [of "Updating msg rest"] C [of "Updating msg rest"]
        ok [of "Updating msg rest"]
      show ?thesis
        by (simp add: worker_step_def pool_invariant_def A qty_of_add_product_qty
            product_sum_Cons)
    qed
  qed
qed

lemma step_invariant:
  assumes "pool_invariant um ds c"
  shows "pool_invariant um ds (step um c a)"
proof (cases a)
  case Distributor
  with assms show ?thesis
    by (auto simp: step_def pool_invariant_def split: list.splits)
next
  case (Worker i)
  with assms worker_step_invariant [OF assms, of i] show ?thesis
    by (simp add: step_def)
qed

lemma initial_invariant: "pool_invariant um ds (initial ds)"
  by (simp add: pool_invariant_def initial_def qty_of_def sum_list_replicate_zero list_all_iff)

lemma run_invariant: "pool_invariant um ds c \<Longrightarrow> pool_invariant um ds (run um c schedule)"
  unfolding run_def by (induction schedule arbitrary: c) (simp_all add: step_invariant)

lemma sum_list_held_empty:
  "(\<Sum>w\<leftarrow>ws. held w) = {#} \<Longrightarrow>
     (\<Sum>w\<leftarrow>ws. counted w) = 0 \<and> (\<Sum>w\<leftarrow>ws. added um p w) = 0"
proof (induction ws)
  case Nil
  then show ?case by simp
next
  case (Cons w ws)
  then show ?case by (cases w) auto
qed

lemma all_acked:
  assumes inv: "pool_invariant um ds c"
    and acks: "length (filter is_Ack (broker c)) = length ds"
  shows "totalOrders (stats c) = of_nat (length ds)
       \<and> (\<forall>p. qty_of (stats c) p = (\<Sum>msg\<leftarrow>ds. product_sum p (message_items um msg)))"
proof -
  from inv have cons: "mset ds =
       mset (msgs c) + mset (messageChan c) + (\<Sum>w\<leftarrow>workers c. held w)
         + mset (map call_msg (broker c))"
    by (simp add: pool_invariant_def)
  then have "size (mset ds) =
      size (mset (msgs c) + mset (messageChan c) + (\<Sum>w\<leftarrow>workers c. held w)
         + mset (map call_msg (broker c)))"
    by simp
  then have sz: "length ds = length (msgs c) + length (messageChan c)
      + size (\<Sum>w\<leftarrow>workers c. held w) + length (broker c)"
    by simp
  have le: "length (filter is_Ack (broker c)) \<le> length (broker c)"
    by simp
  from sz acks le have all: "length (filter is_Ack (broker c)) = length (broker c)"
    and e1: "msgs c = []" and e2: "messageChan c = []"
    and e3: "(\<Sum>w\<leftarrow>workers c. held w) = {#}"
    by auto
  from all have f: "filter is_Ack (broker c) = broker c"
    by (metis filter_True length_filter_less less_irrefl)
  from cons e1 e2 e3 have ms: "mset ds = mset (map call_msg (broker c))" by simp
  have idle: "(\<Sum>w\<leftarrow>workers c. counted w) = 0" "(\<Sum>w\<leftarrow>workers c. added um p w) = 0" for p
    using sum_list_held_empty [OF e3] by simp_all
  have "(\<Sum>x\<leftarrow>broker c. product_sum p (message_items um (call_msg x))) =
        (\<Sum>msg\<leftarrow>ds. product_sum p (message_items um msg))" for p
  proof -
    have "(\<Sum>x\<leftarrow>broker c. product_sum p (message_items um (call_msg x))) =
          sum_mset (image_mset (\<lambda>msg. product_sum p (message_items um msg))
            (mset (map call_msg (broker c))))"
      by (simp add: sum_mset_sum_list [symmetric] image_mset.compositionality comp_def)
    also have "\<dots> = sum_mset (image_mset (\<lambda>msg. product_sum p (message_items um msg)) (mset ds))"
      by (simp only: ms)
    also have "\<dots> = (\<Sum>msg\<leftarrow>ds. product_sum p (message_items um msg))"
      by (simp add: sum_mset_sum_list [symmetric])
    finally show ?thesis .
  qed
  with inv idle f acks show ?thesis
    by (simp add: pool_invariant_def)
qed

lemma sint_of_nat_exact:
  assumes "n \<le> 9223372036854775807"
  shows "sint (of_nat n :: int64) = int n"
  using sint_word_of_int_exact [of "int n"] assms by simp

lemma product_sum_word_of_int: "product_sum p items = word_of_int (product_sum_int p items)"
  by (simp add: product_sum_def product_sum_int_def sum_list_word_of_int [of "map Quantity _"]
      comp_def)

lemma sum_product_sum_word_of_int:
  "(\<Sum>msg\<leftarrow>ds. product_sum p (message_items um msg)) =
     word_of_int (\<Sum>msg\<leftarrow>ds. product_sum_int p (message_items um msg))"
  by (induction ds) (simp_all add: product_sum_word_of_int)

text \<open>
  Claim C3, as the code has it. Whatever the schedule of the distributor and the
  workers, once the broker has received as many acknowledgements as there were
  deliveries, \<^verbatim>\<open>totalOrders\<close> is the number of deliveries and the quantity recorded
  for every product is the sum of that product's quantities over the items of all
  deliveries, both computed in \<^verbatim>\<open>int64\<close> with wrap-around: \<^verbatim>\<open>totalOrders\<close> is
  exactly the number of deliveries when that is at most \<open>2^63 - 1\<close>, and the quantity
  of a product is exactly the integer sum when that sum lies between \<open>- 2^63\<close> and
  \<open>2^63 - 1\<close>.
\<close>

theorem worker_pool_totals:
  assumes "length (filter is_Ack (broker (run um (initial deliveries) schedule))) =
             length deliveries"
  shows "totalOrders (stats (run um (initial deliveries) schedule)) = of_nat (length deliveries)
       \<and> (\<forall>p. qty_of (stats (run um (initial deliveries) schedule)) p =
                (\<Sum>msg\<leftarrow>deliveries. product_sum p (message_items um msg)))
       \<and> (length deliveries \<le> 9223372036854775807 \<longrightarrow>
            sint (totalOrders (stats (run um (initial deliveries) schedule))) =
              int (length deliveries))
       \<and> (\<forall>p. - 9223372036854775808 \<le>
                  (\<Sum>msg\<leftarrow>deliveries. product_sum_int p (message_items um msg)) \<and>
                (\<Sum>msg\<leftarrow>deliveries. product_sum_int p (message_items um msg))
                  \<le> 9223372036854775807 \<longrightarrow>
                sint (qty_of (stats (run um (initial deliveries) schedule)) p) =
                  (\<Sum>msg\<leftarrow>deliveries. product_sum_int p (message_items um msg)))"
proof -
  have "pool_invariant um deliveries (run um (initial deliveries) schedule)"
    by (intro run_invariant initial_invariant)
  from all_acked [OF this assms]
  show ?thesis
    by (simp add: sint_of_nat_exact sum_product_sum_word_of_int sint_word_of_int_exact)
qed

theorem worker_pool_totals_witness:
  "length (filter is_Ack (broker (run example_unmarshal (initial example_deliveries)
      example_schedule))) = length example_deliveries
   \<and> totalOrders (stats (run example_unmarshal (initial example_deliveries) example_schedule)) = 2
   \<and> qty_of (stats (run example_unmarshal (initial example_deliveries) example_schedule)) ''P1'' = 5
   \<and> qty_of (stats (run example_unmarshal (initial example_deliveries) example_schedule)) ''P2'' = 1"
proof -
  have h: "length (filter is_Ack (broker (run example_unmarshal (initial example_deliveries)
      example_schedule))) = length example_deliveries"
    by (simp add: run_def step_def worker_step_def initial_def numWorkers_def
        example_unmarshal_def example_deliveries_def example_schedule_def
        count_order_def add_product_qty_def qty_of_def)
  from worker_pool_totals [OF h]
  have "totalOrders (stats (run example_unmarshal (initial example_deliveries) example_schedule))
          = of_nat (length example_deliveries)"
    and "\<forall>p. qty_of (stats (run example_unmarshal (initial example_deliveries) example_schedule)) p =
                (\<Sum>msg\<leftarrow>example_deliveries. product_sum p (message_items example_unmarshal msg))"
    by blast+
  then show ?thesis
    using h
    by (simp add: example_deliveries_def product_sum_def message_items_def example_unmarshal_def)
qed

text \<open>
  The claim as the specification states it, the arithmetic sum for every sequence of
  messages, fails: the consumer checks no quantity, and one acknowledged message with
  two lines of \<open>2^62\<close> units of a product leaves \<open>- 2^63\<close> recorded for it, where the
  sum of the two quantities is \<open>2^63\<close>.
\<close>

theorem worker_pool_overflow_counterexample:
  "length (filter is_Ack (broker (run large_unmarshal (initial large_deliveries)
      large_schedule))) = length large_deliveries
   \<and> sint (qty_of (stats (run large_unmarshal (initial large_deliveries) large_schedule)) ''P1'')
       = - 9223372036854775808
   \<and> (\<Sum>msg\<leftarrow>large_deliveries. product_sum_int ''P1'' (message_items large_unmarshal msg))
       = 9223372036854775808
   \<and> sint (qty_of (stats (run large_unmarshal (initial large_deliveries) large_schedule)) ''P1'')
       \<noteq> (\<Sum>msg\<leftarrow>large_deliveries. product_sum_int ''P1'' (message_items large_unmarshal msg))"
proof -
  have acks: "broker (run large_unmarshal (initial large_deliveries) large_schedule) =
      [Ack \<lparr>DeliveryTag = 1, Body = ''a''\<rparr> False]"
    by (simp add: run_def step_def worker_step_def initial_def numWorkers_def
        large_unmarshal_def large_deliveries_def large_schedule_def
        count_order_def add_product_qty_def qty_of_def)
  have counters: "stats (run large_unmarshal (initial large_deliveries) large_schedule) =
      \<lparr>totalOrders = 1, productQty = [''P1'' \<mapsto> 9223372036854775808]\<rparr>"
    by (simp add: run_def step_def worker_step_def initial_def numWorkers_def
        large_unmarshal_def large_deliveries_def large_schedule_def
        count_order_def add_product_qty_def qty_of_def)
  have total: "(\<Sum>msg\<leftarrow>large_deliveries.
      product_sum_int ''P1'' (message_items large_unmarshal msg)) = 9223372036854775808"
    by (simp add: large_deliveries_def product_sum_int_def message_items_def
        large_unmarshal_def)
  have recorded: "sint (qty_of (stats (run large_unmarshal (initial large_deliveries)
      large_schedule)) ''P1'') = - 9223372036854775808"
    by (simp add: counters qty_of_def)
  from acks total recorded show ?thesis
    by (simp add: large_deliveries_def)
qed

subsection \<open>A worker on its own runs \<^verbatim>\<open>processMessages\<close>\<close>

lemma run_Cons: "run um c (a # schedule) = run um (step um c a) schedule"
  by (simp add: run_def)

lemma run_Nil: "run um c [] = c"
  by (simp add: run_def)

lemma worker_alone_updating:
  assumes "i < length (workers c)" and "workers c ! i = Updating msg items"
  shows "run um c (replicate (Suc (length items)) (Worker i)) =
           c\<lparr>stats := foldl add_product_qty (stats c) items,
             broker := broker c @ [Ack msg False],
             workers := (workers c)[i := Receiving]\<rparr>"
  using assms
proof (induction items arbitrary: c)
  case Nil
  then show ?case
    by (simp add: run_Cons run_Nil step_def worker_step_def)
next
  case (Cons item items)
  let ?c1 = "c\<lparr>stats := add_product_qty (stats c) item,
               workers := (workers c)[i := Updating msg items]\<rparr>"
  have s: "step um c (Worker i) = ?c1"
    using Cons.prems by (simp add: step_def worker_step_def)
  have "i < length (workers ?c1)" "workers ?c1 ! i = Updating msg items"
    using Cons.prems by simp_all
  from Cons.IH [OF this] show ?case
    by (simp add: run_Cons s)
qed

lemma worker_alone:
  assumes "i < length (workers c)" and "workers c ! i = Receiving"
    and "messageChan c = msg # rest"
  shows "\<exists>n. run um c (replicate n (Worker i)) =
           c\<lparr>messageChan := rest,
             stats := fst (processMessage um (stats c) msg),
             broker := broker c @ [snd (processMessage um (stats c) msg)]\<rparr>"
proof -
  let ?c1 = "c\<lparr>messageChan := rest, workers := (workers c)[i := Unmarshalling msg]\<rparr>"
  have s1: "step um c (Worker i) = ?c1"
    using assms by (simp add: step_def worker_step_def)
  have same: "(workers c)[i := Receiving] = workers c"
    using assms(2) by (metis list_update_id)
  show ?thesis
  proof (cases "um (Body msg)")
    case None
    have "run um c (replicate 2 (Worker i)) =
        c\<lparr>messageChan := rest, stats := fst (processMessage um (stats c) msg),
          broker := broker c @ [snd (processMessage um (stats c) msg)]\<rparr>"
      using assms None
      by (simp add: numeral_2_eq_2 run_Cons run_Nil s1 step_def worker_step_def
          processMessage_def same)
    then show ?thesis ..
  next
    case (Some order)
    let ?c2 = "?c1\<lparr>workers := (workers ?c1)[i := Counting msg order]\<rparr>"
    let ?c3 = "?c2\<lparr>stats := count_order (stats ?c2),
                 workers := (workers ?c2)[i := Updating msg (order_Items order)]\<rparr>"
    have s2: "step um ?c1 (Worker i) = ?c2"
      using assms Some by (simp add: step_def worker_step_def)
    have s3: "step um ?c2 (Worker i) = ?c3"
      using assms by (simp add: step_def worker_step_def)
    have "i < length (workers ?c3)" "workers ?c3 ! i = Updating msg (order_Items order)"
      using assms by simp_all
    from worker_alone_updating [OF this, of um]
    have r: "run um ?c3 (replicate (Suc (length (order_Items order))) (Worker i)) =
        c\<lparr>messageChan := rest, stats := fst (processMessage um (stats c) msg),
          broker := broker c @ [snd (processMessage um (stats c) msg)]\<rparr>"
      using Some by (simp add: processMessage_def processOrder_def same)
    have "replicate (3 + Suc (length (order_Items order))) (Worker i) =
        Worker i # Worker i # Worker i # replicate (Suc (length (order_Items order))) (Worker i)"
      by (simp add: numeral_3_eq_3)
    then have "run um c (replicate (3 + Suc (length (order_Items order))) (Worker i)) =
        run um ?c3 (replicate (Suc (length (order_Items order))) (Worker i))"
      by (simp only: run_Cons s1 s2 s3)
    with r have "run um c (replicate (3 + Suc (length (order_Items order))) (Worker i)) =
        c\<lparr>messageChan := rest, stats := fst (processMessage um (stats c) msg),
          broker := broker c @ [snd (processMessage um (stats c) msg)]\<rparr>"
      by simp
    then show ?thesis ..
  qed
qed

end
